theory Spec2Isabelle
  imports Main "HOL-Library.Word" "HOL-Library.AList"
begin

unbundle bit_operations_syntax

section \<open>Hash-space arithmetic: \<open>byteArith\<close>\<close>

text \<open>
  A Go \<open>[]byte\<close> is a list of 8-bit words; \<open>b[i] += 1\<close> and \<open>b[i] -= 1\<close> are
  the wrapping operations of \<open>8 word\<close>.
\<close>

type_synonym u8 = "8 word"
type_synonym u16 = "16 word"
type_synonym u32 = "32 word"

text \<open>
  The first loop of \<open>byteArith\<close>: \<open>for i := len(b) - 1; i >= 0; i--\<close>. The first
  argument is \<open>i + 1\<close>, so \<open>0\<close> means the loop has run off the front of the slice.
  The result pairs the updated slice with a flag telling whether the loop left by its
  \<open>return\<close> (\<open>True\<close>) or fell out at \<open>i < 0\<close> (\<open>False\<close>).
\<close>

fun byteArith_up :: "nat \<Rightarrow> u8 list \<Rightarrow> u8 list \<times> bool" where
  "byteArith_up 0 b = (b, False)"
| "byteArith_up (Suc i) b =
     (if b ! i = 255 then byteArith_up i (b[i := 0])
      else (b[i := b ! i + 1], True))"

text \<open>The second loop, the same walk with borrow instead of carry.\<close>

fun byteArith_down :: "nat \<Rightarrow> u8 list \<Rightarrow> u8 list \<times> bool" where
  "byteArith_down 0 b = (b, False)"
| "byteArith_down (Suc i) b =
     (if b ! i = 0 then byteArith_down i (b[i := 255])
      else (b[i := b ! i - 1], True))"

text \<open>
  \<open>byteArith(b, x)\<close>. With \<open>x\<close> set the increment loop runs; only its \<open>return\<close>
  leaves the function, so when every byte was \<open>0xFF\<close> control falls out of the
  \<open>if\<close> block into the decrement loop, which then runs on the all-zero slice.
\<close>

definition byteArith :: "u8 list \<Rightarrow> bool \<Rightarrow> u8 list" where
  "byteArith b x =
     (if x then
        (case byteArith_up (length b) b of
           (b', True) \<Rightarrow> b'
         | (b', False) \<Rightarrow> fst (byteArith_down (length b') b'))
      else fst (byteArith_down (length b) b))"

section \<open>Base-32 text form: \<open>packBase32\<close>, \<open>unpackBase32\<close>\<close>

text \<open>
  The two functions of the source hand their argument to Go's \<open>encoding/base32\<close>,
  \<open>HexEncoding\<close> (alphabet \<open>0-9A-V\<close>, padding \<open>=\<close>). The standard library is
  modelled here as far as the source uses it: \<open>Encode\<close>, and \<open>Decode\<close> together
  with the count \<open>n\<close> of bytes it wrote, since \<open>packBase32\<close> drops the decoder's
  error and keeps \<open>buf[:n]\<close>.
\<close>

definition encodeHex :: string where
  "encodeHex = ''0123456789ABCDEFGHIJKLMNOPQRSTUV''"

text \<open>\<open>decodeMap\<close>: the position of a character in the alphabet, \<open>None\<close> for the
  table's \<open>0xFF\<close> (not a digit of the encoding).\<close>

definition decodeMap :: "char \<Rightarrow> u8 option" where
  "decodeMap c =
     (let n = (of_char c :: nat) in
      if 48 \<le> n \<and> n \<le> 57 then Some (of_nat (n - 48))
      else if 65 \<le> n \<and> n \<le> 86 then Some (of_nat (n - 55))
      else None)"

text \<open>The eight 5-bit groups of one quantum of five source bytes; a short final
  quantum has its missing bytes contribute nothing (the \<open>switch\<close> with
  \<open>fallthrough\<close> on a zeroed array).\<close>

definition quantum :: "u8 \<Rightarrow> u8 \<Rightarrow> u8 \<Rightarrow> u8 \<Rightarrow> u8 \<Rightarrow> u8 list" where
  "quantum s0 s1 s2 s3 s4 =
     [drop_bit 3 s0,
      (push_bit 2 s0 AND 0x1F) OR (drop_bit 6 s1 AND 0x1F),
      drop_bit 1 s1 AND 0x1F,
      (push_bit 4 s1 AND 0x1F) OR (drop_bit 4 s2 AND 0x1F),
      (push_bit 1 s2 AND 0x1F) OR drop_bit 7 s3,
      drop_bit 2 s3 AND 0x1F,
      (push_bit 3 s3 AND 0x1F) OR drop_bit 5 s4,
      s4 AND 0x1F]"

definition digits :: "u8 list \<Rightarrow> string" where
  "digits b = map (\<lambda>v. encodeHex ! unat (v AND 31)) b"

fun Encode :: "u8 list \<Rightarrow> string" where
  "Encode [] = []"
| "Encode (s0 # s1 # s2 # s3 # s4 # src) = digits (quantum s0 s1 s2 s3 s4) @ Encode src"
| "Encode [s0, s1, s2, s3] = take 7 (digits (quantum s0 s1 s2 s3 0)) @ ''=''"
| "Encode [s0, s1, s2] = take 5 (digits (quantum s0 s1 s2 0 0)) @ ''===''"
| "Encode [s0, s1] = take 4 (digits (quantum s0 s1 0 0 0)) @ ''====''"
| "Encode [s0] = take 2 (digits (quantum s0 0 0 0 0)) @ ''======''"

text \<open>Packing the digits \<open>dbuf\<close> of one quantum into bytes; \<open>dlen\<close> is the number of
  digits read before the padding, and decides how many bytes count.\<close>

definition digit_at :: "u8 list \<Rightarrow> nat \<Rightarrow> u8" where
  "digit_at dbuf i = (if i < length dbuf then dbuf ! i else 0)"

definition pack_quantum :: "u8 list \<Rightarrow> nat \<Rightarrow> u8 list" where
  "pack_quantum dbuf dlen =
     take (if dlen = 8 then 5 else if dlen = 7 then 4 else if dlen = 5 then 3
           else if dlen = 4 then 2 else if dlen = 2 then 1 else 0)
       [push_bit 3 (digit_at dbuf 0) OR drop_bit 2 (digit_at dbuf 1),
        push_bit 6 (digit_at dbuf 1) OR push_bit 1 (digit_at dbuf 2) OR drop_bit 4 (digit_at dbuf 3),
        push_bit 4 (digit_at dbuf 3) OR drop_bit 1 (digit_at dbuf 4),
        push_bit 7 (digit_at dbuf 4) OR push_bit 2 (digit_at dbuf 5) OR drop_bit 3 (digit_at dbuf 6),
        push_bit 5 (digit_at dbuf 6) OR digit_at dbuf 7]"

text \<open>
  The decoder's two nested iterations, as one walk over the input: \<open>j\<close> is the position in
  the current quantum and \<open>dbuf\<close> the digits read so far. The result is the bytes
  written from here on. Every \<open>return n, false, CorruptInputError\<close> of the library is a
  branch that yields no further bytes: what earlier quanta produced stays, the broken
  quantum produces nothing.
\<close>

fun decode_loop :: "nat \<Rightarrow> u8 list \<Rightarrow> string \<Rightarrow> u8 list" where
  "decode_loop j dbuf [] = []"
| "decode_loop j dbuf (c # src) =
     (if c = CHR ''='' \<and> 2 \<le> j \<and> length src < 8 then
        (if length src + j < 7 then []
         else if list_ex (\<lambda>p. p \<noteq> CHR ''='') (take (7 - j) src) then []
         else if j = 3 \<or> j = 6 then []
         else pack_quantum dbuf j)
      else
        (case decodeMap c of
           None \<Rightarrow> []
         | Some v \<Rightarrow>
             if j = 7 then pack_quantum (dbuf @ [v]) 8 @ decode_loop 0 [] src
             else decode_loop (Suc j) (dbuf @ [v]) src))"

text \<open>\<open>Decode\<close> drops carriage returns and line feeds before decoding.\<close>

definition Decode :: "string \<Rightarrow> u8 list" where
  "Decode src = decode_loop 0 [] (filter (\<lambda>c. c \<noteq> CHR 0x0D \<and> c \<noteq> CHR 0x0A) src)"

definition packBase32 :: "string \<Rightarrow> u8 list" where
  "packBase32 s = Decode s"

definition unpackBase32 :: "u8 list \<Rightarrow> string" where
  "unpackBase32 b = Encode b"

text \<open>\<open>strings.ToLower\<close>, on the ASCII letters (the only letters a base-32 text
  holds); every other byte is left as it is.\<close>

definition ToLower :: "string \<Rightarrow> string" where
  "ToLower s =
     map (\<lambda>c. case map_of (zip ''ABCDEFGHIJKLMNOPQRSTUVWXYZ'' ''abcdefghijklmnopqrstuvwxyz'') c of
                 None \<Rightarrow> c | Some l \<Rightarrow> l) s"

section \<open>Resource records and messages\<close>

text \<open>
  The record types of the DNS library, with the fields the source reads or writes.
  Every record struct starts with its header \<open>Hdr\<close>; the interface \<open>dns.RR\<close> is
  the datatype \<open>RR\<close>, one constructor for each dynamic type the source tells apart
  and \<open>Other_RR\<close> for the rest.
\<close>

record RR_Header =
  Name :: string
  Rrtype :: u16
  Class :: u16
  Ttl :: u32

record rr =
  Hdr :: RR_Header

record SOA = rr +
  Serial :: u32

record SRV = rr +
  Priority :: u16
  Weight :: u16
  Port :: u16
  Target :: string

record A = rr +
  A_IP :: "u8 list"

record AAAA = rr +
  AAAA_IP :: "u8 list"

record NSEC3 = rr +
  Hash :: u8
  Flags :: u8
  Iterations :: u16
  SaltLength :: u8
  Salt :: string
  HashLength :: u8
  NextDomain :: string
  TypeBitMap :: "u16 list"

record DNSKEY = rr +
  Algorithm :: u8
  PublicKey :: string

record NS = rr +
  NS_Ns :: string

record TXT = rr +
  Txt :: "string list"

record RRSIG = rr +
  TypeCovered :: u16
  Algorithm :: u8
  Labels :: u8
  OrigTtl :: u32
  Expiration :: u32
  Inception :: u32
  KeyTag :: u16
  SignerName :: string
  Signature :: string

datatype RR =
    SOA_RR SOA
  | SRV_RR SRV
  | A_RR A
  | AAAA_RR AAAA
  | NSEC3_RR NSEC3
  | DNSKEY_RR DNSKEY
  | NS_RR NS
  | TXT_RR TXT
  | RRSIG_RR RRSIG
  | OPT_RR rr
  | Other_RR rr

fun Header :: "RR \<Rightarrow> RR_Header" where
  "Header (SOA_RR t) = Hdr t"
| "Header (SRV_RR t) = Hdr t"
| "Header (A_RR t) = Hdr t"
| "Header (AAAA_RR t) = Hdr t"
| "Header (NSEC3_RR t) = Hdr t"
| "Header (DNSKEY_RR t) = Hdr t"
| "Header (NS_RR t) = Hdr t"
| "Header (TXT_RR t) = Hdr t"
| "Header (RRSIG_RR t) = Hdr t"
| "Header (OPT_RR t) = Hdr t"
| "Header (Other_RR t) = Hdr t"

abbreviation (input) RcodeSuccess :: int where "RcodeSuccess \<equiv> 0"
abbreviation (input) RcodeNameError :: int where "RcodeNameError \<equiv> 3"
abbreviation (input) TypeTXT :: u16 where "TypeTXT \<equiv> 16"
abbreviation (input) TypeOPT :: u16 where "TypeOPT \<equiv> 41"
abbreviation (input) TypeRRSIG :: u16 where "TypeRRSIG \<equiv> 46"
abbreviation (input) TypeNSEC3 :: u16 where "TypeNSEC3 \<equiv> 50"
abbreviation (input) ClassINET :: u16 where "ClassINET \<equiv> 1"
abbreviation (input) SHA1 :: u8 where "SHA1 \<equiv> 1"

record Question =
  Q_Name :: string
  Qtype :: u16
  Qclass :: u16

record Msg =
  Rcode :: int
  Truncated :: bool
  Question :: "Question list"
  Answer :: "RR list"
  Ns :: "RR list"
  Extra :: "RR list"

text \<open>The zone signing configuration \<open>s.config\<close>; the private key is opaque.\<close>

record 'k Config =
  Domain :: string
  PubKey :: DNSKEY
  KeyTag :: u16
  PrivKey :: 'k
  Ttl :: u32
  MinTtl :: u32
  ClosestEncloser :: NSEC3
  DenyWildcard :: NSEC3

record 'k server =
  config :: "'k Config"

text \<open>
  How a call ends: it returns, it panics (an index out of range, a nil dereference, a
  negative wait-group counter), or it blocks in \<open>Wait\<close> on a computation that this
  caller does not drive.
\<close>

datatype 'a outcome = Return 'a | Panic | Block

text \<open>Time: nanoseconds since the epoch, as \<open>time.Time\<close> and \<open>time.Duration\<close>
  count them.\<close>

type_synonym time = int

abbreviation (input) Hour :: int where "Hour \<equiv> 3600000000000"

definition Unix :: "time \<Rightarrow> int" where
  "Unix t = t div 1000000000"

text \<open>
  What the source calls in the DNS library and in the runtime, taken as parameters:
  \<^item> \<open>HashName q\<close> is \<open>dns.HashName(q, dns.SHA1, 0, "")\<close>, the base-32 text of the
    NSEC3 hash of a name;
  \<^item> \<open>Sign k sig rrset\<close> is \<open>sig.Sign(k, rrset)\<close>: the signature record as the
    primitive leaves it, and its error (\<open>None\<close> for \<open>nil\<close>), an error being its
    message;
  \<^item> \<open>ValidityPeriod sig t\<close> is \<open>sig.ValidityPeriod(t)\<close>;
  \<^item> \<open>Len m\<close> is \<open>m.Len()\<close>;
  \<^item> \<open>rangeOrder\<close> is the order in which \<open>range\<close> walks the entries of a map.
\<close>

record 'k dnslib =
  HashName :: "string \<Rightarrow> string"
  Sign :: "'k \<Rightarrow> RRSIG \<Rightarrow> RR list \<Rightarrow> RRSIG \<times> string option"
  ValidityPeriod :: "RRSIG \<Rightarrow> time \<Rightarrow> bool"
  Len :: "Msg \<Rightarrow> int"
  rangeOrder :: "((string \<times> u16) \<times> RR list) list \<Rightarrow> ((string \<times> u16) \<times> RR list) list"

section \<open>The NSEC3 synthesizer\<close>

text \<open>\<open>new(dns.NSEC3)\<close>: every field at its zero value.\<close>

definition new_NSEC3 :: NSEC3 where
  "new_NSEC3 =
     \<lparr>Hdr = \<lparr>Name = [], Rrtype = 0, Class = 0, RR_Header.Ttl = 0\<rparr>,
      Hash = 0, Flags = 0, Iterations = 0, SaltLength = 0, Salt = [], HashLength = 0,
      NextDomain = [], TypeBitMap = []\<rparr>"

definition NewNSEC3NameError :: "'k dnslib \<Rightarrow> 'k server \<Rightarrow> string \<Rightarrow> NSEC3" where
  "NewNSEC3NameError L s qname =
     (let n = new_NSEC3\<lparr>Hdr := \<lparr>Name = [], Rrtype = TypeNSEC3, Class = ClassINET,
                 RR_Header.Ttl = MinTtl (config s)\<rparr>,
               Hash := SHA1, Flags := 0, Salt := [], TypeBitMap := []\<rparr>;
          covername = HashName L qname;
          buf = packBase32 covername;
          buf = byteArith buf False;
          n = n\<lparr>Hdr := (Hdr n)\<lparr>Name := ToLower (unpackBase32 buf) @ ''.'' @ Domain (config s)\<rparr>\<rparr>;
          buf = byteArith buf True;
          buf = byteArith buf True
      in n\<lparr>NextDomain := unpackBase32 buf\<rparr>)"

definition NewNSEC3NoData :: "'k dnslib \<Rightarrow> 'k server \<Rightarrow> string \<Rightarrow> NSEC3" where
  "NewNSEC3NoData L s qname =
     (let n = new_NSEC3\<lparr>Hdr := \<lparr>Name = [], Rrtype = TypeNSEC3, Class = ClassINET,
                 RR_Header.Ttl = MinTtl (config s)\<rparr>,
               Hash := SHA1, Flags := 0, Salt := [], TypeBitMap := []\<rparr>;
          n = n\<lparr>Hdr := (Hdr n)\<lparr>Name := HashName L qname\<rparr>\<rparr>;
          buf = packBase32 (Name (Hdr n));
          buf = byteArith buf True;
          n = n\<lparr>NextDomain := unpackBase32 buf\<rparr>
      in n\<lparr>Hdr := (Hdr n)\<lparr>Name := Name (Hdr n) @ ''.'' @ Domain (config s)\<rparr>\<rparr>)"

definition newNSEC3CEandWildcard ::
    "'k dnslib \<Rightarrow> string \<Rightarrow> string \<Rightarrow> u32 \<Rightarrow> NSEC3 \<times> NSEC3" where
  "newNSEC3CEandWildcard L apex ce ttl =
     (let n1 = new_NSEC3\<lparr>Hdr := \<lparr>Name = [], Rrtype = TypeNSEC3, Class = ClassINET,
                  RR_Header.Ttl = ttl\<rparr>,
                Hash := SHA1, Flags := 0, Salt := [], TypeBitMap := []\<rparr>;
          n1 = n1\<lparr>Hdr := (Hdr n1)\<lparr>Name := HashName L ce @ ''.'' @ apex\<rparr>\<rparr>;
          buf = packBase32 (Name (Hdr n1));
          buf = byteArith buf True;
          n1 = n1\<lparr>NextDomain := unpackBase32 buf\<rparr>;
          n2 = new_NSEC3\<lparr>Hdr := \<lparr>Name = [], Rrtype = TypeNSEC3, Class = ClassINET,
                  RR_Header.Ttl = ttl\<rparr>,
                Hash := SHA1, Flags := 0, Salt := []\<rparr>;
          buf = packBase32 (''*.'' @ apex);
          buf = byteArith buf False;
          n2 = n2\<lparr>Hdr := (Hdr n2)\<lparr>Name := ToLower (unpackBase32 buf) @ ''.'' @ apex\<rparr>\<rparr>;
          buf = byteArith buf True;
          buf = byteArith buf True;
          n2 = n2\<lparr>NextDomain := unpackBase32 buf\<rparr>
      in (n1, n2))"

section \<open>Denial insertion\<close>

text \<open>
  \<open>Denial\<close> changes the message in place; the model returns the changed message.
  \<open>m.Question[0]\<close> on a message without a question is an index out of range.
  The two \<open>if\<close> statements run one after the other, the second on the message as the
  first left it.
\<close>

definition Denial :: "'k dnslib \<Rightarrow> 'k server \<Rightarrow> Msg \<Rightarrow> Msg outcome" where
  "Denial L s m =
     (case (if Rcode m = RcodeNameError then
              (case Question m of
                 [] \<Rightarrow> Panic
               | q # qs \<Rightarrow>
                   let nsec3 = NewNSEC3NameError L s (Q_Name q);
                       m = m\<lparr>Ns := Ns m @ [NSEC3_RR nsec3]\<rparr>;
                       m = (if Name (Hdr nsec3) \<noteq> Name (Hdr (ClosestEncloser (config s)))
                            then m\<lparr>Ns := Ns m @ [NSEC3_RR (ClosestEncloser (config s))]\<rparr> else m);
                       m = (if Name (Hdr nsec3) \<noteq> Name (Hdr (DenyWildcard (config s)))
                            then m\<lparr>Ns := Ns m @ [NSEC3_RR (DenyWildcard (config s))]\<rparr> else m)
                   in Return m)
            else Return m) of
        Return m \<Rightarrow>
          (if Rcode m = RcodeSuccess \<and> length (Ns m) = 1 then
             (case hd (Ns m) of
                SOA_RR soa \<Rightarrow>
                  (case Question m of
                     [] \<Rightarrow> Panic
                   | q # qs \<Rightarrow> Return (m\<lparr>Ns := Ns m @ [NSEC3_RR (NewNSEC3NoData L s (Q_Name q))]\<rparr>))
              | _ \<Rightarrow> Return m)
           else Return m)
      | Panic \<Rightarrow> Panic
      | Block \<Rightarrow> Block)"

section \<open>The RRset grouper\<close>

text \<open>
  \<open>rrSets\<close> builds a Go map from (owner name, type) to the records of that owner and
  type. The map is an association list with one entry for each key, in the order of
  first encounter; a \<open>range\<close> over it visits \<open>rangeOrder\<close> of that list. The
  \<open>nil\<close> returned for an empty map ranges like the empty map.
\<close>

fun rrSets_loop ::
    "((string \<times> u16) \<times> RR list) list \<Rightarrow> RR list \<Rightarrow> ((string \<times> u16) \<times> RR list) list" where
  "rrSets_loop m [] = m"
| "rrSets_loop m (r # rrs) =
     (case map_of m (Name (Header r), Rrtype (Header r)) of
        Some s \<Rightarrow> rrSets_loop (AList.update (Name (Header r), Rrtype (Header r)) (s @ [r]) m) rrs
      | None \<Rightarrow> rrSets_loop (m @ [((Name (Header r), Rrtype (Header r)), [r])]) rrs)"

definition rrSets :: "RR list \<Rightarrow> ((string \<times> u16) \<times> RR list) list" where
  "rrSets rrs = rrSets_loop [] rrs"

text \<open>The groups of a section, in the order in which a \<open>range\<close> visits them.\<close>

abbreviation (input) range_groups :: "'k dnslib \<Rightarrow> RR list \<Rightarrow> RR list list" where
  "range_groups L rrs \<equiv> map snd (rangeOrder L (rrSets rrs))"

section \<open>The signature cache and its fingerprint\<close>

type_synonym bytes = "u8 list"

definition packUint16 :: "u16 \<Rightarrow> bytes" where
  "packUint16 i = [ucast (drop_bit 8 i), ucast i]"

definition packUint32 :: "u32 \<Rightarrow> bytes" where
  "packUint32 i = [ucast (drop_bit 24 i), ucast (drop_bit 16 i), ucast (drop_bit 8 i), ucast i]"

text \<open>\<open>[]byte(s)\<close> of a Go string.\<close>

definition bytes_of :: "string \<Rightarrow> bytes" where
  "bytes_of s = map of_char s"

text \<open>
  \<open>h := sha1.New()\<close> is never written to, and \<open>h.Sum(i)\<close> appends the digest of what
  was written to its argument: the key is the serialized \<open>i\<close> followed by the SHA-1
  digest of the empty input (\<open>da39a3ee 5e6b4b0d 3255bfef 95601890 afd80709\<close>).
\<close>

definition sha1_of_nothing :: bytes where
  "sha1_of_nothing =
     [218, 57, 163, 238, 94, 107, 75, 13, 50, 85,
      191, 239, 149, 96, 24, 144, 175, 216, 7, 9]"

text \<open>The type switch inside the loop of \<open>key\<close>: what one record adds to \<open>i\<close>.\<close>

fun key_switch :: "RR \<Rightarrow> bytes" where
  "key_switch (SOA_RR t) = packUint32 (Serial t)"
| "key_switch (SRV_RR t) =
     packUint16 (Priority t) @ packUint16 (Weight t) @ packUint16 (Weight t) @ bytes_of (Target t)"
| "key_switch (A_RR t) = A_IP t"
| "key_switch (AAAA_RR t) = AAAA_IP t"
| "key_switch (NSEC3_RR t) = bytes_of (NextDomain t)"
| "key_switch (DNSKEY_RR t) = []"
| "key_switch (NS_RR t) = []"
| "key_switch (TXT_RR t) = []"
| "key_switch (RRSIG_RR t) = []"
| "key_switch (OPT_RR t) = []"
| "key_switch (Other_RR t) = []"

text \<open>\<open>sigCache.key\<close>; \<open>rrs[0]\<close> of an empty set is an index out of range
  (\<open>None\<close>).\<close>

fun sigCache_key :: "RR list \<Rightarrow> bytes option" where
  "sigCache_key [] = None"
| "sigCache_key (r0 # rrs) =
     Some (foldl (\<lambda>i r. i @ key_switch r)
             (bytes_of (Name (Header r0)) @ packUint16 (Rrtype (Header r0))) (r0 # rrs)
           @ sha1_of_nothing)"

text \<open>The cache map \<open>sigCache.m\<close>. A stored signature is never changed after
  \<open>insert\<close>, and \<open>search\<close> hands out a copy: the map holds values.\<close>

type_synonym sigCache = "bytes \<rightharpoonup> RRSIG"

definition sigCache_remove :: "bytes \<Rightarrow> sigCache \<Rightarrow> sigCache" where
  "sigCache_remove s m = m(s := None)"

definition sigCache_insert :: "bytes \<Rightarrow> RRSIG \<Rightarrow> sigCache \<Rightarrow> sigCache" where
  "sigCache_insert s r m = (case m s of None \<Rightarrow> m(s \<mapsto> r) | Some old \<Rightarrow> m)"

definition sigCache_search :: "bytes \<Rightarrow> sigCache \<Rightarrow> RRSIG option" where
  "sigCache_search s m = m s"

section \<open>The single-flight coordinator\<close>

text \<open>
  A \<open>call\<close> is shared by pointer between the registry \<open>single.m\<close>, the leader and
  the followers, so the calls live in a store: \<open>calls\<close> maps an address to the call
  object, \<open>ncalls\<close> is the next free address, and \<open>inflight\<close> (\<open>single.m\<close>) maps
  a key to the address of its pending call. \<open>wg\<close> is the counter of the
  \<open>sync.WaitGroup\<close>.
\<close>

record call =
  wg :: int
  val :: "RRSIG option"
  err :: "string option"
  dups :: int

datatype logline = Infof_cache_miss string u16 | Errorf_failed_to_sign string

text \<open>The number of \<open>failed to sign\<close> lines in a log.\<close>

definition failed_to_sign :: "logline list \<Rightarrow> nat" where
  "failed_to_sign l =
     length (filter (\<lambda>x. case x of Errorf_failed_to_sign e \<Rightarrow> True
                                | Infof_cache_miss n t \<Rightarrow> False) l)"

text \<open>
  The state shared by all requests: the package variables \<open>cache\<close> and
  \<open>inflight\<close>, the store of call objects, the counter
  \<open>StatsDnssecCacheMiss\<close> and the log. \<open>signCalls\<close> counts the invocations of
  the private-key operation \<open>Sign\<close>.
\<close>

record world =
  cache :: sigCache
  inflight :: "bytes \<rightharpoonup> nat"
  calls :: "nat \<Rightarrow> call"
  ncalls :: nat
  StatsDnssecCacheMiss :: nat
  log :: "logline list"
  signCalls :: nat

text \<open>
  \<open>single.Do\<close>. The operation \<open>fn\<close> runs with the registry unlocked, so it is a
  transformer of the whole shared state: whatever other requests do to the registry
  while the operation runs (a follower joining the pending call) is part of that step.
  A follower adds itself to \<open>dups\<close> and waits; it returns once the counter of the
  wait group is zero and is blocked otherwise. The leader allocates the call, runs
  \<open>fn\<close>, stores the outcome, calls \<open>Done\<close> (a panic when the counter would go
  negative), removes the key and returns what the call object then holds. The lazily
  made map (\<open>g.m == nil\<close>) is the empty map.
\<close>

definition single_Do ::
    "bytes \<Rightarrow> (world \<Rightarrow> (RRSIG option \<times> string option) \<times> world) \<Rightarrow> world
      \<Rightarrow> (RRSIG option \<times> string option \<times> bool) outcome \<times> world" where
  "single_Do key fn w =
     (case inflight w key of
        Some a \<Rightarrow>
          (let c = calls w a;
               w = w\<lparr>calls := (calls w)(a := c\<lparr>dups := dups c + 1\<rparr>)\<rparr>
           in if wg c = 0 then (Return (val c, err c, True), w) else (Block, w))
      | None \<Rightarrow>
          (let a = ncalls w;
               w = w\<lparr>ncalls := Suc a,
                      calls := (calls w)(a := \<lparr>wg = 1, val = None, err = None, dups = 0\<rparr>),
                      inflight := (inflight w)(key \<mapsto> a)\<rparr>;
               ((v, e), w) = fn w;
               w = w\<lparr>calls := (calls w)(a := (calls w a)\<lparr>val := v, err := e\<rparr>)\<rparr>
           in if wg (calls w a) - 1 < 0 then (Panic, w)
              else
                (let w = w\<lparr>calls := (calls w)(a := (calls w a)\<lparr>wg := wg (calls w a) - 1\<rparr>)\<rparr>;
                     w = w\<lparr>inflight := (inflight w)(key := None)\<rparr>
                 in (Return (val (calls w a), err (calls w a), 0 < dups (calls w a)), w))))"

section \<open>The signer\<close>

definition NewRRSIG :: "'k server \<Rightarrow> u32 \<Rightarrow> u32 \<Rightarrow> RRSIG" where
  "NewRRSIG s incep expir =
     \<lparr>Hdr = \<lparr>Name = [], Rrtype = TypeRRSIG, Class = 0, RR_Header.Ttl = Config.Ttl (config s)\<rparr>,
      TypeCovered = 0,
      RRSIG.Algorithm = DNSKEY.Algorithm (PubKey (config s)),
      Labels = 0,
      OrigTtl = Config.Ttl (config s),
      Expiration = expir,
      Inception = incep,
      RRSIG.KeyTag = Config.KeyTag (config s),
      SignerName = Name (Hdr (PubKey (config s))),
      Signature = []\<rparr>"

text \<open>The function literal that \<open>signSet\<close> passes to \<open>inflight.Do\<close>; \<open>r0\<close> is
  \<open>r[0]\<close>.\<close>

definition signSet_func1 ::
    "'k dnslib \<Rightarrow> 'k server \<Rightarrow> RR \<Rightarrow> RR list \<Rightarrow> u32 \<Rightarrow> u32 \<Rightarrow> world
      \<Rightarrow> (RRSIG option \<times> string option) \<times> world" where
  "signSet_func1 L s r0 r incep expir w =
     (let sig1 = NewRRSIG s incep expir;
          sig1 = sig1\<lparr>Hdr := (Hdr sig1)\<lparr>RR_Header.Ttl := RR_Header.Ttl (Header r0)\<rparr>\<rparr>;
          sig1 = (if Rrtype (Header r0) = TypeTXT then sig1\<lparr>OrigTtl := 0\<rparr> else sig1);
          (sig1, e) = Sign L (PrivKey (config s)) sig1 r;
          w = w\<lparr>signCalls := Suc (signCalls w)\<rparr>;
          w = (case e of
                 Some msg \<Rightarrow> w\<lparr>log := log w @ [Errorf_failed_to_sign msg]\<rparr>
               | None \<Rightarrow> w)
      in ((Some sig1, e), w))"

text \<open>The record \<open>sig1\<close> as it stands when the function literal calls \<open>Sign\<close>:
  what \<open>NewRRSIG\<close> built, with the two assignments that follow it.\<close>

definition sig1_stamped :: "'k server \<Rightarrow> RR \<Rightarrow> u32 \<Rightarrow> u32 \<Rightarrow> RRSIG" where
  "sig1_stamped s r0 incep expir =
     \<lparr>Hdr = \<lparr>Name = [], Rrtype = TypeRRSIG, Class = 0, RR_Header.Ttl = RR_Header.Ttl (Header r0)\<rparr>,
      TypeCovered = 0,
      RRSIG.Algorithm = DNSKEY.Algorithm (PubKey (config s)),
      Labels = 0,
      OrigTtl = (if Rrtype (Header r0) = TypeTXT then 0 else Config.Ttl (config s)),
      Expiration = expir,
      Inception = incep,
      RRSIG.KeyTag = Config.KeyTag (config s),
      SignerName = Name (Hdr (PubKey (config s))),
      Signature = []\<rparr>"

text \<open>
  \<open>signSet\<close> returns either a signature and no error (\<open>Inr\<close>) or no signature and
  the error (\<open>Inl\<close>). \<open>dns.Copy\<close> of a value is the value; of \<open>nil\<close> it is a nil
  dereference.
\<close>

definition signSet ::
    "'k dnslib \<Rightarrow> 'k server \<Rightarrow> RR list \<Rightarrow> time \<Rightarrow> u32 \<Rightarrow> u32 \<Rightarrow> world
      \<Rightarrow> (string + RRSIG) outcome \<times> world" where
  "signSet L s r now incep expir w =
     (case (r, sigCache_key r) of
        (r0 # rs, Some key) \<Rightarrow>
          (case (case sigCache_search key (cache w) of
                   Some sig \<Rightarrow>
                     if ValidityPeriod L sig (now + 24 * Hour) then Inl sig
                     else Inr (w\<lparr>cache := sigCache_remove key (cache w)\<rparr>)
                 | None \<Rightarrow> Inr w) of
             Inl sig \<Rightarrow> (Return (Inr sig), w)
           | Inr w \<Rightarrow>
               (let w = w\<lparr>log := log w @ [Infof_cache_miss (Name (Header r0)) (Rrtype (Header r0))]\<rparr>;
                    w = w\<lparr>StatsDnssecCacheMiss := StatsDnssecCacheMiss w + 1\<rparr>
                in case single_Do key (signSet_func1 L s r0 r incep expir) w of
                     (Return (sig, Some e, shared), w) \<Rightarrow> (Return (Inl e), w)
                   | (Return (sig, None, shared), w) \<Rightarrow>
                       (case sig of
                          Some sg \<Rightarrow>
                            (Return (Inr sg),
                             if shared then w else w\<lparr>cache := sigCache_insert key sg (cache w)\<rparr>)
                        | None \<Rightarrow> (Panic, w))
                   | (Panic, w) \<Rightarrow> (Panic, w)
                   | (Block, w) \<Rightarrow> (Block, w)))
      | _ \<Rightarrow> (Panic, w))"

section \<open>The reply augmenter: signing\<close>

text \<open>One of the three range statements of \<open>sign\<close>: the groups in the order of the \<open>range\<close>,
  the section they come from, to which the signatures are appended.\<close>

fun sign_loop ::
    "'k dnslib \<Rightarrow> 'k server \<Rightarrow> time \<Rightarrow> u32 \<Rightarrow> u32 \<Rightarrow> RR list list \<Rightarrow> RR list \<Rightarrow> world
      \<Rightarrow> RR list outcome \<times> world" where
  "sign_loop L s now incep expir [] sec w = (Return sec, w)"
| "sign_loop L s now incep expir (r # groups) sec w =
     (case r of
        [] \<Rightarrow> (Panic, w)
      | r0 # rs \<Rightarrow>
          if Rrtype (Header r0) = TypeRRSIG then sign_loop L s now incep expir groups sec w
          else
            (case signSet L s r now incep expir w of
               (Return (Inr sig), w) \<Rightarrow> sign_loop L s now incep expir groups (sec @ [RRSIG_RR sig]) w
             | (Return (Inl e), w) \<Rightarrow> sign_loop L s now incep expir groups sec w
             | (Panic, w) \<Rightarrow> (Panic, w)
             | (Block, w) \<Rightarrow> (Block, w)))"

text \<open>\<open>sign\<close>; \<open>now\<close> is what \<open>time.Now().UTC()\<close> reads. The source's
  \<open>o\<close> is \<open>opt\<close> here; \<open>SetDo\<close> sets bit 15 of the TTL of the OPT
  record, \<open>SetUDPSize\<close> its class.\<close>

definition sign ::
    "'k dnslib \<Rightarrow> 'k server \<Rightarrow> Msg \<Rightarrow> u16 \<Rightarrow> time \<Rightarrow> world \<Rightarrow> Msg outcome \<times> world" where
  "sign L s m bufsize now w =
     (let incep = (word_of_int (Unix (now + (- 3) * Hour)) :: u32);
          expir = (word_of_int (Unix (now + 7 * 24 * Hour)) :: u32)
      in case sign_loop L s now incep expir (map snd (rangeOrder L (rrSets (Answer m)))) (Answer m) w of
           (Return answer, w) \<Rightarrow>
             (let m = m\<lparr>Answer := answer\<rparr>
              in case sign_loop L s now incep expir (map snd (rangeOrder L (rrSets (Ns m)))) (Ns m) w of
                   (Return ns, w) \<Rightarrow>
                     (let m = m\<lparr>Ns := ns\<rparr>
                      in case sign_loop L s now incep expir
                                (map snd (rangeOrder L (rrSets (Extra m)))) (Extra m) w of
                           (Return extra, w) \<Rightarrow>
                             (let m = m\<lparr>Extra := extra\<rparr>;
                                  m = (if 512 \<le> bufsize \<or> bufsize \<le> 4096
                                       then m\<lparr>Truncated := (uint bufsize < Len L m)\<rparr> else m);
                                  opt = \<lparr>Hdr = \<lparr>Name = ''.'', Rrtype = TypeOPT, Class = 4096,
                                                 RR_Header.Ttl = 0x8000\<rparr>\<rparr>
                              in (Return (m\<lparr>Extra := Extra m @ [OPT_RR opt]\<rparr>), w))
                         | (Panic, w) \<Rightarrow> (Panic, w)
                         | (Block, w) \<Rightarrow> (Block, w))
                 | (Panic, w) \<Rightarrow> (Panic, w)
                 | (Block, w) \<Rightarrow> (Block, w))
         | (Panic, w) \<Rightarrow> (Panic, w)
         | (Block, w) \<Rightarrow> (Block, w))"

section \<open>Test doubles and sample inputs\<close>

text \<open>
  A stand-in for the library, used where a property is run on a concrete input: the
  NSEC3 hashes of four names of the zone \<open>example.com.\<close>, a signing primitive
  that stamps the owner, class, covered type and label count, fills in the original TTL
  when it is zero, and fails for the owner names listed in \<open>faults\<close>, the validity
  test on seconds, and a \<open>range\<close> in the order of first encounter.
\<close>

definition test_HashName :: "string \<Rightarrow> string" where
  "test_HashName q =
     (case map_of [(''nothere.example.com.'', ''AHDV3DVMRB88KFF20NABB1HVH7JE8EDJ''),
                   (''www.example.com.'', ''MIFDNDT3NFF3OD53O7TLA1HRFF95JKUK''),
                   (''example.com.'', ''ONIB9MGUB9H0RML3CDF5BGRJ59DKJHVK''),
                   (''*.example.com.'', ''4F3CNT8CU22TNGEC382JJ4GDE4RB47UB'')] q of
        Some h \<Rightarrow> h
      | None \<Rightarrow> ''00000000000000000000000000000000'')"

definition test_Sign :: "string list \<Rightarrow> unit \<Rightarrow> RRSIG \<Rightarrow> RR list \<Rightarrow> RRSIG \<times> string option" where
  "test_Sign faults k sg rrset =
     (case rrset of
        [] \<Rightarrow> (sg, Some ''dns: bad rrset'')
      | r0 # rs \<Rightarrow>
          if Name (Header r0) \<in> set faults then (sg, Some ''dns: bad signature'')
          else (sg\<lparr>Hdr := (Hdr sg)\<lparr>Name := Name (Header r0), Class := Class (Header r0)\<rparr>,
                   TypeCovered := Rrtype (Header r0),
                   Labels := of_nat (length (filter (\<lambda>c. c = CHR ''.'') (Name (Header r0)))),
                   OrigTtl := (if OrigTtl sg = 0 then RR_Header.Ttl (Header r0) else OrigTtl sg),
                   Signature := ''c2lnbmVk''\<rparr>, None))"

definition test_ValidityPeriod :: "RRSIG \<Rightarrow> time \<Rightarrow> bool" where
  "test_ValidityPeriod sg t = (uint (Inception sg) \<le> Unix t \<and> Unix t \<le> uint (Expiration sg))"

definition testlib :: "string list \<Rightarrow> unit dnslib" where
  "testlib faults =
     \<lparr>HashName = test_HashName,
      Sign = test_Sign faults,
      ValidityPeriod = test_ValidityPeriod,
      Len = (\<lambda>m. 12 + 64 * int (length (Answer m) + length (Ns m) + length (Extra m))),
      rangeOrder = (\<lambda>groups. groups)\<rparr>"

definition test_server :: "unit server" where
  "test_server =
     \<lparr>config =
        \<lparr>Domain = ''example.com.'',
         PubKey = \<lparr>Hdr = \<lparr>Name = ''example.com.'', Rrtype = 48, Class = 1, RR_Header.Ttl = 3600\<rparr>,
                   DNSKEY.Algorithm = 5, PublicKey = ''AwEAAc''\<rparr>,
         Config.KeyTag = 51945,
         PrivKey = (),
         Config.Ttl = 3600,
         MinTtl = 60,
         ClosestEncloser = fst (newNSEC3CEandWildcard (testlib []) ''example.com.'' ''example.com.'' 60),
         DenyWildcard = snd (newNSEC3CEandWildcard (testlib []) ''example.com.'' ''example.com.'' 60)\<rparr>\<rparr>"

definition test_soa :: RR where
  "test_soa = SOA_RR \<lparr>Hdr = \<lparr>Name = ''example.com.'', Rrtype = 6, Class = 1, RR_Header.Ttl = 60\<rparr>,
                       Serial = 1400000000\<rparr>"

definition test_nxdomain :: Msg where
  "test_nxdomain =
     \<lparr>Rcode = RcodeNameError, Truncated = False,
      Question = [\<lparr>Q_Name = ''nothere.example.com.'', Qtype = 1, Qclass = 1\<rparr>],
      Answer = [], Ns = [test_soa], Extra = []\<rparr>"

definition test_nodata :: Msg where
  "test_nodata =
     \<lparr>Rcode = RcodeSuccess, Truncated = False,
      Question = [\<lparr>Q_Name = ''www.example.com.'', Qtype = 28, Qclass = 1\<rparr>],
      Answer = [], Ns = [test_soa], Extra = []\<rparr>"

definition test_world :: world where
  "test_world =
     \<lparr>cache = Map.empty, inflight = Map.empty,
      calls = (\<lambda>a. \<lparr>wg = 0, val = None, err = None, dups = 0\<rparr>), ncalls = 0,
      StatsDnssecCacheMiss = 0, log = [], signCalls = 0\<rparr>"

definition test_sig :: RRSIG where
  "test_sig = NewRRSIG test_server 1699989200 1700604800"

text \<open>An operation that counts its executions in \<open>signCalls\<close>.\<close>

definition test_op :: "world \<Rightarrow> (RRSIG option \<times> string option) \<times> world" where
  "test_op w = ((Some test_sig, None), w\<lparr>signCalls := Suc (signCalls w)\<rparr>)"

text \<open>The same operation, with a second request calling \<open>Do\<close> for the key while it
  runs: the second caller finds the pending call, counts itself in \<open>dups\<close> and
  waits.\<close>

definition test_op_joined :: "bytes \<Rightarrow> world \<Rightarrow> (RRSIG option \<times> string option) \<times> world" where
  "test_op_joined key w = (fst (test_op w), snd (single_Do key test_op (snd (test_op w))))"

definition test_a :: "string \<Rightarrow> RR" where
  "test_a name = A_RR \<lparr>Hdr = \<lparr>Name = name, Rrtype = 1, Class = 1, RR_Header.Ttl = 300\<rparr>,
                       A_IP = [192, 0, 2, 1]\<rparr>"


definition test_srv :: "u16 \<Rightarrow> SRV" where
  "test_srv p = \<lparr>Hdr = \<lparr>Name = ''_http._tcp.example.com.'', Rrtype = 33, Class = 1,
                          RR_Header.Ttl = 300\<rparr>,
                   Priority = 10, Weight = 100, Port = p, Target = ''www.example.com.''\<rparr>"

definition test_reply :: "RR list \<Rightarrow> RR list \<Rightarrow> Msg" where
  "test_reply answer ns =
     \<lparr>Rcode = RcodeSuccess, Truncated = False,
      Question = [\<lparr>Q_Name = ''www.example.com.'', Qtype = 1, Qclass = 1\<rparr>],
      Answer = answer, Ns = ns, Extra = []\<rparr>"

text \<open>12:13:20 UTC on 14 November 2023, in nanoseconds.\<close>

definition test_now :: time where
  "test_now = 1700000000 * 1000000000"

text \<open>The fingerprint of the A set of \<open>www.example.com.\<close>, the signature the
  stand-in primitive gives for it, the shared state after that signature was made and
  cached first, and two later times: a day, and six and a half days, after
  \<open>test_now\<close>.\<close>

definition test_key_www :: bytes where
  "test_key_www =
     [119, 119, 119, 46, 101, 120, 97, 109, 112, 108, 101, 46, 99, 111, 109, 46, 0, 1,
      192, 0, 2, 1] @ sha1_of_nothing"

definition test_sig_www :: "u32 \<Rightarrow> u32 \<Rightarrow> RRSIG" where
  "test_sig_www incep expir =
     \<lparr>Hdr = \<lparr>Name = ''www.example.com.'', Rrtype = TypeRRSIG, Class = 1, RR_Header.Ttl = 300\<rparr>,
      TypeCovered = 1, RRSIG.Algorithm = 5, Labels = 3, OrigTtl = 3600,
      Expiration = expir, Inception = incep, RRSIG.KeyTag = 51945,
      SignerName = ''example.com.'', Signature = ''c2lnbmVk''\<rparr>"

definition test_world_signed :: "RRSIG \<Rightarrow> world" where
  "test_world_signed sg =
     test_world\<lparr>log := [Infof_cache_miss ''www.example.com.'' 1],
        StatsDnssecCacheMiss := 1,
        ncalls := 1,
        calls := (calls test_world)(0 := \<lparr>wg = 0, val = Some sg, err = None, dups = 0\<rparr>),
        signCalls := 1,
        cache := [test_key_www \<mapsto> sg]\<rparr>"

definition test_day1 :: time where
  "test_day1 = test_now + 24 * Hour"

definition test_day7 :: time where
  "test_day7 = test_now + 156 * Hour"

section \<open>Properties of the hash-space arithmetic\<close>

lemma u8_255: "(255 :: u8) = - 1"
  by simp

lemma u8_succ_nz: "(x :: u8) \<noteq> 255 \<Longrightarrow> x + 1 \<noteq> 0"
  unfolding u8_255 by (simp add: eq_neg_iff_add_eq_0)

lemma u8_pred_nmax: "(x :: u8) \<noteq> 0 \<Longrightarrow> x - 1 \<noteq> 255"
  unfolding u8_255 by simp

text \<open>On a prefix that holds a byte below \<open>0xFF\<close> the increment loop leaves by its
  \<open>return\<close>, touches the prefix only, and the decrement loop takes the result back.\<close>

lemma up_then_down:
  "\<exists>x \<in> set xs. x \<noteq> 255 \<Longrightarrow>
   \<exists>zs. length zs = length xs
      \<and> (\<forall>ys. byteArith_up (length xs) (xs @ ys) = (zs @ ys, True))
      \<and> (\<forall>ys. byteArith_down (length zs) (zs @ ys) = (xs @ ys, True))"
proof (induction xs rule: rev_induct)
  case Nil
  then show ?case by simp
next
  case (snoc x xs)
  show ?case
  proof (cases "x = 255")
    case True
    with snoc.prems have "\<exists>x \<in> set xs. x \<noteq> 255" by auto
    from snoc.IH [OF this] obtain zs where zs: "length zs = length xs"
      "\<And>ys. byteArith_up (length xs) (xs @ ys) = (zs @ ys, True)"
      "\<And>ys. byteArith_down (length zs) (zs @ ys) = (xs @ ys, True)" by blast
    have "length (zs @ [0]) = length (xs @ [x])" using zs(1) by simp
    moreover have "\<And>ys. byteArith_up (length (xs @ [x])) ((xs @ [x]) @ ys) = ((zs @ [0]) @ ys, True)"
      using zs(2) True by simp
    moreover have "\<And>ys. byteArith_down (length (zs @ [0])) ((zs @ [0]) @ ys) = ((xs @ [x]) @ ys, True)"
      using zs(3) True by simp
    ultimately show ?thesis by blast
  next
    case False
    then have nz: "x + 1 \<noteq> 0" by (rule u8_succ_nz)
    have "length (xs @ [x + 1]) = length (xs @ [x])" by simp
    moreover have "\<And>ys. byteArith_up (length (xs @ [x])) ((xs @ [x]) @ ys) = ((xs @ [x + 1]) @ ys, True)"
      using False by simp
    moreover have "\<And>ys. byteArith_down (length (xs @ [x + 1])) ((xs @ [x + 1]) @ ys) = ((xs @ [x]) @ ys, True)"
      using nz by simp
    ultimately show ?thesis by blast
  qed
qed

lemma down_then_up:
  "\<exists>x \<in> set xs. x \<noteq> 0 \<Longrightarrow>
   \<exists>zs. length zs = length xs
      \<and> (\<forall>ys. byteArith_down (length xs) (xs @ ys) = (zs @ ys, True))
      \<and> (\<forall>ys. byteArith_up (length zs) (zs @ ys) = (xs @ ys, True))"
proof (induction xs rule: rev_induct)
  case Nil
  then show ?case by simp
next
  case (snoc x xs)
  show ?case
  proof (cases "x = 0")
    case True
    with snoc.prems have "\<exists>x \<in> set xs. x \<noteq> 0" by auto
    from snoc.IH [OF this] obtain zs where zs: "length zs = length xs"
      "\<And>ys. byteArith_down (length xs) (xs @ ys) = (zs @ ys, True)"
      "\<And>ys. byteArith_up (length zs) (zs @ ys) = (xs @ ys, True)" by blast
    have "length (zs @ [255]) = length (xs @ [x])" using zs(1) by simp
    moreover have "\<And>ys. byteArith_down (length (xs @ [x])) ((xs @ [x]) @ ys) = ((zs @ [255]) @ ys, True)"
      using zs(2) True by simp
    moreover have "\<And>ys. byteArith_up (length (zs @ [255])) ((zs @ [255]) @ ys) = ((xs @ [x]) @ ys, True)"
      using zs(3) True by simp
    ultimately show ?thesis by blast
  next
    case False
    then have nz: "x - 1 \<noteq> 255" by (rule u8_pred_nmax)
    have "length (xs @ [x - 1]) = length (xs @ [x])" by simp
    moreover have "\<And>ys. byteArith_down (length (xs @ [x])) ((xs @ [x]) @ ys) = ((xs @ [x - 1]) @ ys, True)"
      using False by simp
    moreover have "\<And>ys. byteArith_up (length (xs @ [x - 1])) ((xs @ [x - 1]) @ ys) = ((xs @ [x]) @ ys, True)"
      using nz by simp
    ultimately show ?thesis by blast
  qed
qed

lemma byteArith_inc_dec:
  assumes "\<exists>x \<in> set b. x \<noteq> 255"
  shows "byteArith (byteArith b True) False = b"
proof -
  from up_then_down [OF assms] obtain zs where zs: "length zs = length b"
    "byteArith_up (length b) (b @ []) = (zs @ [], True)"
    "byteArith_down (length zs) (zs @ []) = (b @ [], True)" by blast
  then show ?thesis by (simp add: byteArith_def)
qed

lemma byteArith_dec_inc:
  assumes "\<exists>x \<in> set b. x \<noteq> 0"
  shows "byteArith (byteArith b False) True = b"
proof -
  from down_then_up [OF assms] obtain zs where zs: "length zs = length b"
    "byteArith_down (length b) (b @ []) = (zs @ [], True)"
    "byteArith_up (length zs) (zs @ []) = (b @ [], True)" by blast
  then show ?thesis by (simp add: byteArith_def)
qed

text \<open>
  Claim C10. For a byte sequence that is not all \<open>0xFF\<close>, incrementing and then
  decrementing gives the sequence back; for one that is not all \<open>0x00\<close>, decrementing
  and then incrementing gives it back. The two excluded sequences are the wraparound
  edges, where nothing is checked.
\<close>

theorem byteArith_inverse:
  "((\<exists>x \<in> set b. x \<noteq> 255) \<longrightarrow> byteArith (byteArith b True) False = b) \<and>
   ((\<exists>x \<in> set b. x \<noteq> 0) \<longrightarrow> byteArith (byteArith b False) True = b)"
  using byteArith_inc_dec byteArith_dec_inc by blast

theorem byteArith_inverse_witness:
  "(\<exists>x \<in> set [0x12, 0xFF :: u8]. x \<noteq> 255)
   \<and> byteArith (byteArith [0x12, 0xFF] True) False = [0x12, 0xFF]
   \<and> (\<exists>x \<in> set [0x12, 0x00 :: u8]. x \<noteq> 0)
   \<and> byteArith (byteArith [0x12, 0x00] False) True = [0x12, 0x00]"
  using byteArith_inverse [of "[0x12, 0xFF]"] byteArith_inverse [of "[0x12, 0x00]"] by simp

section \<open>Properties of the NSEC3 synthesizer and of denial insertion\<close>

lemmas b32_simps = packBase32_def unpackBase32_def Decode_def decodeMap_def pack_quantum_def
  digit_at_def digits_def quantum_def encodeHex_def ToLower_def byteArith_def

lemma wildcard_pack_empty: "packBase32 (CHR ''*'' # rest) = []"
  by (simp add: packBase32_def Decode_def decodeMap_def)

lemma byteArith_Nil: "byteArith [] x = []"
  by (simp add: byteArith_def)

lemma wildcard_record:
  "Name (Hdr (snd (newNSEC3CEandWildcard L apex ce ttl))) = ''.'' @ apex
   \<and> NextDomain (snd (newNSEC3CEandWildcard L apex ce ttl)) = []"
  by (simp add: newNSEC3CEandWildcard_def Let_def wildcard_pack_empty byteArith_Nil
        unpackBase32_def ToLower_def)

text \<open>
  Claim C2. The claim says that the second record of \<open>newNSEC3CEandWildcard\<close> is
  owned by the hash of \<open>"*." + apex\<close> decremented by one step. The code packs the
  text \<open>"*." + apex\<close> itself, without hashing it: \<open>*\<close> is no base-32 digit, the
  decoder stops at once, the buffer is empty and stays empty under \<open>byteArith\<close>. For
  every apex and every hash function the owner name is \<open>"." + apex\<close> and the
  next-hashed owner name is empty. For the apex \<open>example.com.\<close> the owner name is
  \<open>.example.com.\<close>, where the claim has the hash of \<open>*.example.com.\<close> decremented
  by one step, \<open>4f3cnt8cu22tngec382jj4gde4rb47ua\<close>, under the apex.
\<close>

theorem wildcard_denial_not_hashed:
  "Name (Hdr (snd (newNSEC3CEandWildcard L apex ce ttl))) = ''.'' @ apex
   \<and> NextDomain (snd (newNSEC3CEandWildcard L apex ce ttl)) = []
   \<and> Name (Hdr (snd (newNSEC3CEandWildcard (testlib []) ''example.com.'' ''example.com.'' 60)))
       = ''.example.com.''
   \<and> ToLower (unpackBase32 (byteArith
         (packBase32 (HashName (testlib []) (''*.'' @ ''example.com.''))) False)) @ ''.'' @ ''example.com.''
       = ''4f3cnt8cu22tngec382jj4gde4rb47ua.example.com.''"
proof -
  have b: "ToLower (unpackBase32 (byteArith
         (packBase32 (HashName (testlib []) (''*.'' @ ''example.com.''))) False)) @ ''.'' @ ''example.com.''
       = ''4f3cnt8cu22tngec382jj4gde4rb47ua.example.com.''"
    by (simp add: testlib_def test_HashName_def b32_simps)
  from wildcard_record [of L apex ce ttl]
       wildcard_record [of "testlib []" "''example.com.''" "''example.com.''" 60] b
  show ?thesis by simp
qed

text \<open>
  Claim C1, as the code has it. For a name-error reply with a question, the synthesized
  record is owned by the lower-cased base-32 text of hash(qname) decremented by one step,
  under the zone; its next-hashed owner name is that decremented value incremented by two
  steps, which is hash(qname) incremented by one step unless the hash is all zero bytes.
  \<open>Denial\<close> appends the record to the authority section, then the closest-encloser
  record and the wildcard-denial record, each unless its owner name equals the owner name
  of the synthesized record.
\<close>

theorem Denial_NameError:
  assumes "Rcode m = RcodeNameError" and "Question m = q # qs"
  shows "let n = NewNSEC3NameError L s (Q_Name q);
             h = packBase32 (HashName L (Q_Name q));
             ce = ClosestEncloser (config s);
             dw = DenyWildcard (config s)
         in Name (Hdr n) = ToLower (unpackBase32 (byteArith h False)) @ ''.'' @ Domain (config s)
          \<and> NextDomain n = unpackBase32 (byteArith (byteArith (byteArith h False) True) True)
          \<and> ((\<exists>x \<in> set h. x \<noteq> 0) \<longrightarrow> NextDomain n = unpackBase32 (byteArith h True))
          \<and> Denial L s m =
               Return (m\<lparr>Ns := Ns m @ [NSEC3_RR n]
                          @ (if Name (Hdr n) = Name (Hdr ce) then [] else [NSEC3_RR ce])
                          @ (if Name (Hdr n) = Name (Hdr dw) then [] else [NSEC3_RR dw])\<rparr>)"
proof -
  have name: "Name (Hdr (NewNSEC3NameError L s (Q_Name q))) =
      ToLower (unpackBase32 (byteArith (packBase32 (HashName L (Q_Name q))) False)) @ ''.'' @ Domain (config s)"
    by (simp add: NewNSEC3NameError_def Let_def)
  have nxt: "NextDomain (NewNSEC3NameError L s (Q_Name q)) =
      unpackBase32 (byteArith (byteArith (byteArith (packBase32 (HashName L (Q_Name q))) False) True) True)"
    by (simp add: NewNSEC3NameError_def Let_def)
  have den: "Denial L s m =
      Return (m\<lparr>Ns := Ns m @ [NSEC3_RR (NewNSEC3NameError L s (Q_Name q))]
         @ (if Name (Hdr (NewNSEC3NameError L s (Q_Name q))) = Name (Hdr (ClosestEncloser (config s)))
            then [] else [NSEC3_RR (ClosestEncloser (config s))])
         @ (if Name (Hdr (NewNSEC3NameError L s (Q_Name q))) = Name (Hdr (DenyWildcard (config s)))
            then [] else [NSEC3_RR (DenyWildcard (config s))])\<rparr>)"
    using assms by (simp add: Denial_def Let_def)
  show ?thesis
    unfolding Let_def using name nxt den byteArith_dec_inc by simp
qed

text \<open>
  Claim C8. When the result code is success and the authority section is exactly one SOA
  record, \<open>Denial\<close> appends the NODATA record: its owner name is hash(qname) as the
  hasher returns it, under the zone, and its next-hashed owner name is hash(qname)
  incremented by one step. On every other authority section of a successful reply the
  message is returned as it came. (\<open>qname\<close> is the name of the first question.)
\<close>

theorem Denial_NoData:
  "(Rcode m = RcodeSuccess \<and> Ns m = [SOA_RR soa] \<and> Question m = q # qs \<longrightarrow>
      Denial L s m = Return (m\<lparr>Ns := [SOA_RR soa, NSEC3_RR (NewNSEC3NoData L s (Q_Name q))]\<rparr>)
      \<and> Name (Hdr (NewNSEC3NoData L s (Q_Name q))) = HashName L (Q_Name q) @ ''.'' @ Domain (config s)
      \<and> NextDomain (NewNSEC3NoData L s (Q_Name q))
          = unpackBase32 (byteArith (packBase32 (HashName L (Q_Name q))) True))
   \<and> (Rcode m = RcodeSuccess \<and> (\<nexists>soa. Ns m = [SOA_RR soa]) \<longrightarrow> Denial L s m = Return m)"
proof (intro conjI impI)
  assume a: "Rcode m = RcodeSuccess \<and> (\<nexists>soa. Ns m = [SOA_RR soa])"
  show "Denial L s m = Return m"
  proof (cases "length (Ns m) = 1")
    case True
    then obtain r where r: "Ns m = [r]" by (cases "Ns m") auto
    with a show ?thesis by (cases r) (simp_all add: Denial_def)
  next
    case False
    with a show ?thesis by (simp add: Denial_def)
  qed
qed (simp_all add: Denial_def NewNSEC3NoData_def Let_def)

lemmas test_simps = testlib_def test_server_def test_HashName_def test_Sign_def
  test_ValidityPeriod_def test_soa_def test_nxdomain_def test_nodata_def

lemma test_NameError_eval:
  "NewNSEC3NameError (testlib []) test_server ''nothere.example.com.'' =
     \<lparr>Hdr = \<lparr>Name = ''ahdv3dvmrb88kff20nabb1hvh7je8edi.example.com.'', Rrtype = TypeNSEC3,
              Class = ClassINET, RR_Header.Ttl = 60\<rparr>,
      Hash = SHA1, Flags = 0, Iterations = 0, SaltLength = 0, Salt = [], HashLength = 0,
      NextDomain = ''AHDV3DVMRB88KFF20NABB1HVH7JE8EDK'', TypeBitMap = []\<rparr>"
  by (simp add: NewNSEC3NameError_def new_NSEC3_def test_simps b32_simps)

lemma test_ce_eval:
  "newNSEC3CEandWildcard (testlib []) ''example.com.'' ''example.com.'' 60 =
     (\<lparr>Hdr = \<lparr>Name = ''ONIB9MGUB9H0RML3CDF5BGRJ59DKJHVK.example.com.'', Rrtype = TypeNSEC3,
               Class = ClassINET, RR_Header.Ttl = 60\<rparr>,
       Hash = SHA1, Flags = 0, Iterations = 0, SaltLength = 0, Salt = [], HashLength = 0,
       NextDomain = ''ONIB9MGUB9H0RML3CDF5BGRJ59DKJHVL'', TypeBitMap = []\<rparr>,
      \<lparr>Hdr = \<lparr>Name = ''.example.com.'', Rrtype = TypeNSEC3,
               Class = ClassINET, RR_Header.Ttl = 60\<rparr>,
       Hash = SHA1, Flags = 0, Iterations = 0, SaltLength = 0, Salt = [], HashLength = 0,
       NextDomain = [], TypeBitMap = []\<rparr>)"
  by (simp add: newNSEC3CEandWildcard_def new_NSEC3_def test_simps b32_simps)

text \<open>
  Claim C1 as stated fails: for \<open>nothere.example.com.\<close> the next-hashed owner name
  ends in \<open>K\<close>, one step after the hash (which ends in \<open>J\<close>), while the hash
  incremented by two steps ends in \<open>L\<close>.
\<close>

theorem NameError_next_counterexample:
  "NextDomain (NewNSEC3NameError (testlib []) test_server ''nothere.example.com.'')
     = ''AHDV3DVMRB88KFF20NABB1HVH7JE8EDK''
   \<and> unpackBase32 (byteArith (byteArith
         (packBase32 (HashName (testlib []) ''nothere.example.com.'')) True) True)
     = ''AHDV3DVMRB88KFF20NABB1HVH7JE8EDL''
   \<and> NextDomain (NewNSEC3NameError (testlib []) test_server ''nothere.example.com.'')
     \<noteq> unpackBase32 (byteArith (byteArith
         (packBase32 (HashName (testlib []) ''nothere.example.com.'')) True) True)"
proof -
  have a: "NextDomain (NewNSEC3NameError (testlib []) test_server ''nothere.example.com.'')
     = ''AHDV3DVMRB88KFF20NABB1HVH7JE8EDK''"
    by (simp add: test_NameError_eval)
  have b: "unpackBase32 (byteArith (byteArith
         (packBase32 (HashName (testlib []) ''nothere.example.com.'')) True) True)
     = ''AHDV3DVMRB88KFF20NABB1HVH7JE8EDL''"
    by (simp add: test_simps b32_simps)
  show ?thesis unfolding a b by simp
qed

text \<open>The property on the name-error reply for \<open>nothere.example.com.\<close>: three
  records are appended.\<close>

theorem Denial_NameError_witness:
  "Rcode test_nxdomain = RcodeNameError
   \<and> Question test_nxdomain = [\<lparr>Q_Name = ''nothere.example.com.'', Qtype = 1, Qclass = 1\<rparr>]
   \<and> (\<exists>x \<in> set (packBase32 (HashName (testlib []) ''nothere.example.com.'')). x \<noteq> 0)
   \<and> Denial (testlib []) test_server test_nxdomain =
       Return (test_nxdomain\<lparr>Ns :=
         [test_soa,
          NSEC3_RR \<lparr>Hdr = \<lparr>Name = ''ahdv3dvmrb88kff20nabb1hvh7je8edi.example.com.'',
                      Rrtype = TypeNSEC3, Class = ClassINET, RR_Header.Ttl = 60\<rparr>,
             Hash = SHA1, Flags = 0, Iterations = 0, SaltLength = 0, Salt = [], HashLength = 0,
             NextDomain = ''AHDV3DVMRB88KFF20NABB1HVH7JE8EDK'', TypeBitMap = []\<rparr>,
          NSEC3_RR (ClosestEncloser (config test_server)),
          NSEC3_RR (DenyWildcard (config test_server))]\<rparr>)"
proof -
  have r: "Rcode test_nxdomain = RcodeNameError"
    by (simp add: test_nxdomain_def)
  have q: "Question test_nxdomain = \<lparr>Q_Name = ''nothere.example.com.'', Qtype = 1, Qclass = 1\<rparr> # []"
    by (simp add: test_nxdomain_def)
  have nz: "\<exists>x \<in> set (packBase32 (HashName (testlib []) ''nothere.example.com.'')). x \<noteq> 0"
    by (simp add: test_simps b32_simps)
  have ce: "Name (Hdr (ClosestEncloser (config test_server))) = ''ONIB9MGUB9H0RML3CDF5BGRJ59DKJHVK.example.com.''"
    by (simp add: test_server_def test_ce_eval)
  have dw: "Name (Hdr (DenyWildcard (config test_server))) = ''.example.com.''"
    by (simp add: test_server_def test_ce_eval)
  have ns: "Ns test_nxdomain = [test_soa]"
    by (simp add: test_nxdomain_def)
  from Denial_NameError [OF r q, of "testlib []" test_server] r q nz show ?thesis
    by (simp add: Let_def test_NameError_eval ce dw ns)
qed

text \<open>The property on a NODATA reply for \<open>www.example.com.\<close>, and on the same
  reply with an empty authority section.\<close>

theorem Denial_NoData_witness:
  "Rcode test_nodata = RcodeSuccess
   \<and> Ns test_nodata = [test_soa]
   \<and> Denial (testlib []) test_server test_nodata =
       Return (test_nodata\<lparr>Ns :=
         [test_soa,
          NSEC3_RR \<lparr>Hdr = \<lparr>Name = ''MIFDNDT3NFF3OD53O7TLA1HRFF95JKUK.example.com.'',
                      Rrtype = TypeNSEC3, Class = ClassINET, RR_Header.Ttl = 60\<rparr>,
             Hash = SHA1, Flags = 0, Iterations = 0, SaltLength = 0, Salt = [], HashLength = 0,
             NextDomain = ''MIFDNDT3NFF3OD53O7TLA1HRFF95JKUL'', TypeBitMap = []\<rparr>]\<rparr>)
   \<and> Rcode (test_nodata\<lparr>Ns := []\<rparr>) = RcodeSuccess
   \<and> (\<nexists>soa. Ns (test_nodata\<lparr>Ns := []\<rparr>) = [SOA_RR soa])
   \<and> Denial (testlib []) test_server (test_nodata\<lparr>Ns := []\<rparr>) = Return (test_nodata\<lparr>Ns := []\<rparr>)"
proof -
  have ev: "NewNSEC3NoData (testlib []) test_server ''www.example.com.'' =
     \<lparr>Hdr = \<lparr>Name = ''MIFDNDT3NFF3OD53O7TLA1HRFF95JKUK.example.com.'',
                      Rrtype = TypeNSEC3, Class = ClassINET, RR_Header.Ttl = 60\<rparr>,
             Hash = SHA1, Flags = 0, Iterations = 0, SaltLength = 0, Salt = [], HashLength = 0,
             NextDomain = ''MIFDNDT3NFF3OD53O7TLA1HRFF95JKUL'', TypeBitMap = []\<rparr>"
    by (simp add: NewNSEC3NoData_def new_NSEC3_def test_simps b32_simps)
  have a: "Rcode test_nodata = RcodeSuccess \<and> Ns test_nodata = [test_soa]
      \<and> Question test_nodata = \<lparr>Q_Name = ''www.example.com.'', Qtype = 28, Qclass = 1\<rparr> # []"
    by (simp add: test_nodata_def)
  have b: "Rcode (test_nodata\<lparr>Ns := []\<rparr>) = RcodeSuccess \<and> (\<nexists>soa. Ns (test_nodata\<lparr>Ns := []\<rparr>) = [SOA_RR soa])"
    by (simp add: test_nodata_def)
  from Denial_NoData [of test_nodata _ _ "[]" "testlib []" test_server] a
       Denial_NoData [of "test_nodata\<lparr>Ns := []\<rparr>" _ _ _ "testlib []" test_server] b
  show ?thesis
    by (simp add: ev test_soa_def)
qed

section \<open>Properties of the single-flight coordinator\<close>

text \<open>
  Claim C9, as the code has it. When no call is pending for the key, \<open>Do\<close> registers
  a call, runs the operation once on the state so prepared, hands back the operation's
  result and error, and leaves the key unregistered. The flag it returns is
  \<open>c.dups > 0\<close>, read after the operation: \<open>False\<close> when no other caller joined the
  pending call while the operation ran, \<open>True\<close> otherwise.
\<close>

theorem single_Do_leader:
  assumes "inflight w key = None"
    and "fn (w\<lparr>ncalls := Suc (ncalls w),
               calls := (calls w)(ncalls w := \<lparr>wg = 1, val = None, err = None, dups = 0\<rparr>),
               inflight := (inflight w)(key \<mapsto> ncalls w)\<rparr>) = ((v, e), w2)"
    and "0 < wg (calls w2 (ncalls w))"
  shows "single_Do key fn w =
           (Return (v, e, 0 < dups (calls w2 (ncalls w))),
            w2\<lparr>calls := (calls w2)(ncalls w :=
                    (calls w2 (ncalls w))\<lparr>val := v, err := e, wg := wg (calls w2 (ncalls w)) - 1\<rparr>),
               inflight := (inflight w2)(key := None)\<rparr>)
         \<and> inflight (snd (single_Do key fn w)) key = None
         \<and> (dups (calls w2 (ncalls w)) = 0 \<longrightarrow>
              fst (single_Do key fn w) = Return (v, e, False))"
  using assms by (simp add: single_Do_def Let_def)

text \<open>The property on the empty registry, with an operation that counts its
  executions: one execution, flag \<open>False\<close>, registry empty again.\<close>

theorem single_Do_leader_witness:
  "inflight test_world [1, 2, 3] = None
   \<and> single_Do [1, 2, 3] test_op test_world =
       (Return (Some test_sig, None, False),
        test_world\<lparr>ncalls := 1, signCalls := 1,
           calls := (calls test_world)(0 := \<lparr>wg = 0, val = Some test_sig, err = None, dups = 0\<rparr>)\<rparr>)"
proof -
  let ?w2 = "test_world\<lparr>ncalls := 1, signCalls := 1,
               calls := (calls test_world)(0 := \<lparr>wg = 1, val = None, err = None, dups = 0\<rparr>),
               inflight := (inflight test_world)([1, 2, 3] \<mapsto> 0)\<rparr>"
  have a: "inflight test_world [1, 2, 3] = None"
    by (simp add: test_world_def)
  have b: "test_op (test_world\<lparr>ncalls := Suc (ncalls test_world),
               calls := (calls test_world)(ncalls test_world := \<lparr>wg = 1, val = None, err = None, dups = 0\<rparr>),
               inflight := (inflight test_world)([1, 2, 3] \<mapsto> ncalls test_world)\<rparr>)
        = ((Some test_sig, None), ?w2)"
    by (simp add: test_op_def test_world_def)
  have c: "0 < wg (calls ?w2 (ncalls test_world))"
    by (simp add: test_world_def)
  from single_Do_leader [of test_world "[1, 2, 3]" test_op "Some test_sig" None ?w2, OF a b c] a
  show ?thesis
    by (simp add: test_world_def)
qed

text \<open>
  Claim C9 as stated fails: no call is pending when the leader arrives, a second caller
  asks for the same key while the leader's operation runs (it adds itself to \<open>dups\<close>
  and waits), and the leader returns the flag \<open>True\<close>.
\<close>

theorem single_Do_leader_shared_counterexample:
  "inflight test_world [1, 2, 3] = None
   \<and> fst (single_Do [1, 2, 3] (test_op_joined [1, 2, 3]) test_world)
       = Return (Some test_sig, None, True)"
  by (simp add: single_Do_def test_op_joined_def test_op_def test_world_def Let_def)

section \<open>Properties of the signer and of the signature cache\<close>

lemma signSet_func1_stamped:
  "signSet_func1 L s r0 r incep expir w =
     (case Sign L (PrivKey (config s)) (sig1_stamped s r0 incep expir) r of
        (sg, None) \<Rightarrow> ((Some sg, None), w\<lparr>signCalls := Suc (signCalls w)\<rparr>)
      | (sg, Some msg) \<Rightarrow>
          ((Some sg, Some msg),
           w\<lparr>signCalls := Suc (signCalls w), log := log w @ [Errorf_failed_to_sign msg]\<rparr>))"
  by (simp add: signSet_func1_def sig1_stamped_def NewRRSIG_def Let_def split: prod.splits option.splits)

lemma sigCache_key_Some: "sigCache_key r = Some k \<Longrightarrow> \<exists>r0 rs. r = r0 # rs"
  by (cases r) simp_all

lemma signSet_hit:
  assumes "sigCache_key r = Some k" and "cache w k = Some sg"
    and "ValidityPeriod L sg (now + 24 * Hour)"
  shows "signSet L s r now incep expir w = (Return (Inr sg), w)"
proof -
  from assms(1) obtain r0 rs where "r = r0 # rs" by (auto dest: sigCache_key_Some)
  with assms show ?thesis
    by (simp add: signSet_def sigCache_search_def)
qed

lemma signSet_stale:
  assumes "sigCache_key r = Some k" and "cache w k = Some sg"
    and "\<not> ValidityPeriod L sg (now + 24 * Hour)"
  shows "signSet L s r now incep expir w =
         signSet L s r now incep expir (w\<lparr>cache := (cache w)(k := None)\<rparr>)"
proof -
  from assms(1) obtain r0 rs where "r = r0 # rs" by (auto dest: sigCache_key_Some)
  with assms show ?thesis
    by (simp add: signSet_def sigCache_search_def sigCache_remove_def)
qed

lemma signSet_fresh_ok:
  assumes "sigCache_key (r0 # rs) = Some k" and "cache w k = None" and "inflight w k = None"
    and "Sign L (PrivKey (config s)) (sig1_stamped s r0 incep expir) (r0 # rs) = (sg, None)"
  shows "signSet L s (r0 # rs) now incep expir w =
     (Return (Inr sg),
      w\<lparr>log := log w @ [Infof_cache_miss (Name (Header r0)) (Rrtype (Header r0))],
        StatsDnssecCacheMiss := StatsDnssecCacheMiss w + 1,
        ncalls := Suc (ncalls w),
        calls := (calls w)(ncalls w := \<lparr>wg = 0, val = Some sg, err = None, dups = 0\<rparr>),
        signCalls := Suc (signCalls w),
        cache := (cache w)(k \<mapsto> sg)\<rparr>)"
  using assms
  by (simp add: signSet_def sigCache_search_def single_Do_def signSet_func1_stamped
        sigCache_insert_def Let_def fun_upd_idem del: sigCache_key.simps)

lemma signSet_fresh_err:
  assumes "sigCache_key (r0 # rs) = Some k" and "cache w k = None" and "inflight w k = None"
    and "Sign L (PrivKey (config s)) (sig1_stamped s r0 incep expir) (r0 # rs) = (sg, Some msg)"
  shows "signSet L s (r0 # rs) now incep expir w =
     (Return (Inl msg),
      w\<lparr>log := log w @ [Infof_cache_miss (Name (Header r0)) (Rrtype (Header r0)),
                          Errorf_failed_to_sign msg],
        StatsDnssecCacheMiss := StatsDnssecCacheMiss w + 1,
        ncalls := Suc (ncalls w),
        calls := (calls w)(ncalls w := \<lparr>wg = 0, val = Some sg, err = Some msg, dups = 0\<rparr>),
        signCalls := Suc (signCalls w)\<rparr>)"
  using assms
  by (simp add: signSet_def sigCache_search_def single_Do_def signSet_func1_stamped
        sigCache_insert_def Let_def fun_upd_idem del: sigCache_key.simps)

lemma Unix_add_seconds: "Unix (t + d * 1000000000) = Unix t + d"
  by (simp add: Unix_def)

text \<open>
  Claim C5. When the cache holds a signature under the fingerprint of the set: if the
  signature is valid 24 hours from now, \<open>signSet\<close> returns it and changes nothing, so
  nothing is signed; if it is not, \<open>signSet\<close> behaves as on the cache without that
  entry, and (no call pending for the key) the signing primitive runs once, the miss is
  counted, and the cache afterwards holds the fresh signature under the key, or nothing
  when signing failed.
\<close>

theorem signSet_cache_lookup:
  assumes "sigCache_key r = Some k" and "cache w k = Some sg"
  shows "(ValidityPeriod L sg (now + 24 * Hour) \<longrightarrow>
            signSet L s r now incep expir w = (Return (Inr sg), w))
       \<and> (\<not> ValidityPeriod L sg (now + 24 * Hour) \<longrightarrow>
            signSet L s r now incep expir w =
              signSet L s r now incep expir (w\<lparr>cache := (cache w)(k := None)\<rparr>)
          \<and> (inflight w k = None \<longrightarrow>
                signCalls (snd (signSet L s r now incep expir w)) = Suc (signCalls w)
              \<and> StatsDnssecCacheMiss (snd (signSet L s r now incep expir w))
                  = StatsDnssecCacheMiss w + 1
              \<and> cache (snd (signSet L s r now incep expir w)) =
                  (case Sign L (PrivKey (config s)) (sig1_stamped s (hd r) incep expir) r of
                     (sg', None) \<Rightarrow> (cache w)(k \<mapsto> sg')
                   | (sg', Some e) \<Rightarrow> (cache w)(k := None))))"
proof (intro conjI impI)
  assume "ValidityPeriod L sg (now + 24 * Hour)"
  with assms show "signSet L s r now incep expir w = (Return (Inr sg), w)"
    by (rule signSet_hit)
next
  assume stale: "\<not> ValidityPeriod L sg (now + 24 * Hour)"
  with assms show eq: "signSet L s r now incep expir w =
      signSet L s r now incep expir (w\<lparr>cache := (cache w)(k := None)\<rparr>)"
    by (rule signSet_stale)
  assume idle: "inflight w k = None"
  from assms(1) obtain r0 rs where r: "r = r0 # rs" by (auto dest: sigCache_key_Some)
  let ?w = "w\<lparr>cache := (cache w)(k := None)\<rparr>"
  obtain sg' e where sgn: "Sign L (PrivKey (config s)) (sig1_stamped s r0 incep expir) (r0 # rs) = (sg', e)"
    by (cases "Sign L (PrivKey (config s)) (sig1_stamped s r0 incep expir) (r0 # rs)")
  have k: "sigCache_key (r0 # rs) = Some k" using assms(1) r by simp
  have c: "cache ?w k = None" by simp
  have i: "inflight ?w k = None" using idle by simp
  have eq': "signSet L s (r0 # rs) now incep expir w = signSet L s (r0 # rs) now incep expir ?w"
    using eq r by simp
  have res: "signSet L s (r0 # rs) now incep expir w =
      (case e of
         None \<Rightarrow> (Return (Inr sg'),
           ?w\<lparr>log := log w @ [Infof_cache_miss (Name (Header r0)) (Rrtype (Header r0))],
             StatsDnssecCacheMiss := StatsDnssecCacheMiss w + 1,
             ncalls := Suc (ncalls w),
             calls := (calls w)(ncalls w := \<lparr>wg = 0, val = Some sg', err = None, dups = 0\<rparr>),
             signCalls := Suc (signCalls w),
             cache := (cache w)(k \<mapsto> sg')\<rparr>)
       | Some msg \<Rightarrow> (Return (Inl msg),
           ?w\<lparr>log := log w @ [Infof_cache_miss (Name (Header r0)) (Rrtype (Header r0)),
                               Errorf_failed_to_sign msg],
             StatsDnssecCacheMiss := StatsDnssecCacheMiss w + 1,
             ncalls := Suc (ncalls w),
             calls := (calls w)(ncalls w := \<lparr>wg = 0, val = Some sg', err = Some msg, dups = 0\<rparr>),
             signCalls := Suc (signCalls w)\<rparr>))"
  proof (cases e)
    case None
    with sgn have "Sign L (PrivKey (config s)) (sig1_stamped s r0 incep expir) (r0 # rs) = (sg', None)"
      by simp
    from signSet_fresh_ok [OF k c i this, of now] None show ?thesis
      unfolding eq' by simp
  next
    case (Some msg)
    with sgn have "Sign L (PrivKey (config s)) (sig1_stamped s r0 incep expir) (r0 # rs) = (sg', Some msg)"
      by simp
    from signSet_fresh_err [OF k c i this, of now] Some show ?thesis
      unfolding eq' by simp
  qed
  show "signCalls (snd (signSet L s r now incep expir w)) = Suc (signCalls w)"
    unfolding r res by (cases e) simp_all
  show "StatsDnssecCacheMiss (snd (signSet L s r now incep expir w)) = StatsDnssecCacheMiss w + 1"
    unfolding r res by (cases e) simp_all
  show "cache (snd (signSet L s r now incep expir w)) =
      (case Sign L (PrivKey (config s)) (sig1_stamped s (hd r) incep expir) r of
         (sg', None) \<Rightarrow> (cache w)(k \<mapsto> sg')
       | (sg', Some e) \<Rightarrow> (cache w)(k := None))"
    unfolding r res using sgn by (cases e) simp_all
qed

lemma signSet_idle_cases:
  assumes k: "sigCache_key r = Some k" and idle: "inflight w k = None"
    and ret: "signSet L s r now incep expir w = (Return (Inr sg1), w1)"
  shows "cache w1 k = Some sg1 \<and> inflight w1 = inflight w
       \<and> (signCalls w1 = signCalls w \<or> signCalls w1 = Suc (signCalls w))
       \<and> (cache w k = None \<longrightarrow> signCalls w1 = Suc (signCalls w))"
proof -
  from k obtain r0 rs where r: "r = r0 # rs" by (auto dest: sigCache_key_Some)
  have k': "sigCache_key (r0 # rs) = Some k" using k r by simp
  have fresh: "cache w1 k = Some sg1 \<and> inflight w1 = inflight w' \<and> signCalls w1 = Suc (signCalls w')"
    if c: "cache w' k = None" and i: "inflight w' k = None"
      and ret': "signSet L s (r0 # rs) now incep expir w' = (Return (Inr sg1), w1)" for w'
  proof -
    obtain sg' e where sgn: "Sign L (PrivKey (config s)) (sig1_stamped s r0 incep expir) (r0 # rs) = (sg', e)"
      by (cases "Sign L (PrivKey (config s)) (sig1_stamped s r0 incep expir) (r0 # rs)")
    show ?thesis
    proof (cases e)
      case None
      with sgn have "Sign L (PrivKey (config s)) (sig1_stamped s r0 incep expir) (r0 # rs) = (sg', None)"
        by simp
      from signSet_fresh_ok [OF k' c i this, of now] ret' show ?thesis by auto
    next
      case (Some msg)
      with sgn have "Sign L (PrivKey (config s)) (sig1_stamped s r0 incep expir) (r0 # rs) = (sg', Some msg)"
        by simp
      from signSet_fresh_err [OF k' c i this, of now] ret' show ?thesis by simp
    qed
  qed
  show ?thesis
  proof (cases "cache w k")
    case None
    from fresh [OF None idle] ret r None show ?thesis by simp
  next
    case (Some sg0)
    show ?thesis
    proof (cases "ValidityPeriod L sg0 (now + 24 * Hour)")
      case True
      from signSet_hit [OF k Some True] ret Some show ?thesis by simp
    next
      case False
      let ?w = "w\<lparr>cache := (cache w)(k := None)\<rparr>"
      have "signSet L s (r0 # rs) now incep expir ?w = (Return (Inr sg1), w1)"
        using signSet_stale [OF k Some False] ret r by simp
      from fresh [OF _ _ this] idle Some show ?thesis by simp
    qed
  qed
qed

text \<open>
  Claim C3, as the code has it. Two calls of \<open>signSet\<close> on the same set, one after
  the other, no call pending for the key: if the first returns a signature and that
  signature is valid 24 hours after the time of the second call, the second call returns
  the same signature and leaves the whole state as it was (no signing, no entry in the
  single-flight registry). The first call signs at most once, and exactly once when the
  cache had no entry for the set.
\<close>

theorem signSet_twice:
  assumes "sigCache_key r = Some k" and "inflight w k = None"
    and "signSet L s r now1 incep1 expir1 w = (Return (Inr sg1), w1)"
    and "ValidityPeriod L sg1 (now2 + 24 * Hour)"
  shows "signSet L s r now2 incep2 expir2 w1 = (Return (Inr sg1), w1)
       \<and> signCalls w1 \<le> Suc (signCalls w)
       \<and> (cache w k = None \<longrightarrow> signCalls w1 = Suc (signCalls w))"
proof -
  from signSet_idle_cases [OF assms(1-3)]
  have c: "cache w1 k = Some sg1"
    and n: "signCalls w1 = signCalls w \<or> signCalls w1 = Suc (signCalls w)"
    and m: "cache w k = None \<longrightarrow> signCalls w1 = Suc (signCalls w)" by simp_all
  from signSet_hit [OF assms(1) c assms(4)] n m show ?thesis by auto
qed

lemma AList_update_nonempty:
  "\<forall>g \<in> set m. snd g \<noteq> [] \<Longrightarrow> v \<noteq> [] \<Longrightarrow> \<forall>g \<in> set (AList.update k v m). snd g \<noteq> []"
  by (induction m) auto

lemma rrSets_loop_nonempty:
  "\<forall>g \<in> set m. snd g \<noteq> [] \<Longrightarrow> \<forall>g \<in> set (rrSets_loop m rrs). snd g \<noteq> []"
proof (induction rrs arbitrary: m)
  case Nil
  then show ?case by simp
next
  case (Cons r rrs)
  show ?case
  proof (cases "map_of m (Name (Header r), Rrtype (Header r))")
    case None
    have "\<forall>g \<in> set (m @ [((Name (Header r), Rrtype (Header r)), [r])]). snd g \<noteq> []"
      using Cons.prems by auto
    from Cons.IH [OF this] None show ?thesis by simp
  next
    case (Some grp)
    have "\<forall>g \<in> set (AList.update (Name (Header r), Rrtype (Header r)) (grp @ [r]) m). snd g \<noteq> []"
      using Cons.prems by (intro AList_update_nonempty) auto
    from Cons.IH [OF this] Some show ?thesis by simp
  qed
qed

lemma rrSets_nonempty: "\<forall>g \<in> set (rrSets rrs). snd g \<noteq> []"
  unfolding rrSets_def by (rule rrSets_loop_nonempty) simp

lemma signSet_idle_returns:
  assumes k: "sigCache_key (r0 # rs) = Some k" and idle: "inflight w k = None"
  shows "\<exists>res w'. signSet L s (r0 # rs) now incep expir w = (Return res, w')
            \<and> inflight w' = inflight w"
proof -
  obtain sg' e where sgn: "Sign L (PrivKey (config s)) (sig1_stamped s r0 incep expir) (r0 # rs) = (sg', e)"
    by (cases "Sign L (PrivKey (config s)) (sig1_stamped s r0 incep expir) (r0 # rs)")
  have fresh: "\<exists>res w1. signSet L s (r0 # rs) now incep expir w' = (Return res, w1)
            \<and> inflight w1 = inflight w'"
    if c: "cache w' k = None" and i: "inflight w' k = None" for w'
  proof (cases e)
    case None
    with sgn have "Sign L (PrivKey (config s)) (sig1_stamped s r0 incep expir) (r0 # rs) = (sg', None)"
      by simp
    from signSet_fresh_ok [OF k c i this, of now] show ?thesis by simp
  next
    case (Some msg)
    with sgn have "Sign L (PrivKey (config s)) (sig1_stamped s r0 incep expir) (r0 # rs) = (sg', Some msg)"
      by simp
    from signSet_fresh_err [OF k c i this, of now] show ?thesis by simp
  qed
  show ?thesis
  proof (cases "cache w k")
    case None
    from fresh [OF None idle] show ?thesis .
  next
    case (Some sg0)
    show ?thesis
    proof (cases "ValidityPeriod L sg0 (now + 24 * Hour)")
      case True
      from signSet_hit [OF k Some True] show ?thesis by simp
    next
      case False
      let ?w = "w\<lparr>cache := (cache w)(k := None)\<rparr>"
      have "cache ?w k = None" "inflight ?w k = None" using idle by simp_all
      from fresh [OF this] signSet_stale [OF k Some False, of s incep expir] show ?thesis by simp
    qed
  qed
qed

lemma Unix_minus_3h: "Unix (now - 10800000000000) = Unix now - 10800"
  using Unix_add_seconds [of now "- 10800"] by simp

lemma Unix_plus_7d: "Unix (now + 604800000000000) = Unix now + 604800"
  using Unix_add_seconds [of now "604800"] by simp

lemma failed_to_sign_simps:
  "failed_to_sign (l @ [Infof_cache_miss n t]) = failed_to_sign l"
  "failed_to_sign (l @ [Infof_cache_miss n t, Errorf_failed_to_sign e]) = Suc (failed_to_sign l)"
  by (simp_all add: failed_to_sign_def)

lemma ran_upd_None: "ran (m(k := None)) \<subseteq> ran m"
  by (auto simp: ran_def split: if_splits)

lemma ran_upd_Some: "ran (m(k \<mapsto> v)) \<subseteq> insert v (ran m)"
  by (auto simp: ran_def split: if_splits)

text \<open>What one call of signSet on an idle registry gives.\<close>

lemma signSet_idle_outcome:
  assumes k: "sigCache_key (r0 # rs) = Some k" and idle: "inflight w k = None"
  shows "\<exists>res w'. signSet L s (r0 # rs) now incep expir w = (Return res, w')
      \<and> inflight w' = inflight w
      \<and> ran (cache w') \<subseteq>
           insert (fst (Sign L (PrivKey (config s)) (sig1_stamped s r0 incep expir) (r0 # rs)))
             (ran (cache w))
      \<and> (case res of
            Inr sg \<Rightarrow>
              (sg \<in> ran (cache w)
                \<or> sg = fst (Sign L (PrivKey (config s)) (sig1_stamped s r0 incep expir) (r0 # rs)))
              \<and> failed_to_sign (log w') = failed_to_sign (log w)
          | Inl e \<Rightarrow> failed_to_sign (log w') = Suc (failed_to_sign (log w)))"
proof -
  let ?f = "fst (Sign L (PrivKey (config s)) (sig1_stamped s r0 incep expir) (r0 # rs))"
  obtain sg' e where sgn: "Sign L (PrivKey (config s)) (sig1_stamped s r0 incep expir) (r0 # rs) = (sg', e)"
    by (cases "Sign L (PrivKey (config s)) (sig1_stamped s r0 incep expir) (r0 # rs)")
  have fresh: "\<exists>res w1. signSet L s (r0 # rs) now incep expir w' = (Return res, w1)
      \<and> inflight w1 = inflight w'
      \<and> ran (cache w1) \<subseteq> insert ?f (ran (cache w'))
      \<and> (case res of
            Inr sg \<Rightarrow> sg = ?f \<and> failed_to_sign (log w1) = failed_to_sign (log w')
          | Inl e \<Rightarrow> failed_to_sign (log w1) = Suc (failed_to_sign (log w')))"
    if c: "cache w' k = None" and i: "inflight w' k = None" for w'
  proof (cases e)
    case None
    with sgn have "Sign L (PrivKey (config s)) (sig1_stamped s r0 incep expir) (r0 # rs) = (sg', None)"
      by simp
    from signSet_fresh_ok [OF k c i this, of now] sgn ran_upd_Some [of "cache w'" k sg']
    show ?thesis by (simp add: failed_to_sign_simps)
  next
    case (Some msg)
    with sgn have "Sign L (PrivKey (config s)) (sig1_stamped s r0 incep expir) (r0 # rs) = (sg', Some msg)"
      by simp
    from signSet_fresh_err [OF k c i this, of now]
    show ?thesis by (auto simp: failed_to_sign_simps)
  qed
  show ?thesis
  proof (cases "cache w k")
    case None
    from fresh [OF None idle] obtain res w1 where
      r: "signSet L s (r0 # rs) now incep expir w = (Return res, w1)"
      and i1: "inflight w1 = inflight w"
      and c1: "ran (cache w1) \<subseteq> insert ?f (ran (cache w))"
      and o1: "(case res of
          Inr sg \<Rightarrow> sg = ?f \<and> failed_to_sign (log w1) = failed_to_sign (log w)
        | Inl e \<Rightarrow> failed_to_sign (log w1) = Suc (failed_to_sign (log w)))" by blast
    show ?thesis
    proof (intro exI [of _ res] exI [of _ w1] conjI)
      show "case res of
            Inr sg \<Rightarrow> (sg \<in> ran (cache w) \<or> sg = ?f)
              \<and> failed_to_sign (log w1) = failed_to_sign (log w)
          | Inl e \<Rightarrow> failed_to_sign (log w1) = Suc (failed_to_sign (log w))"
        using o1 by (cases res) simp_all
    qed (use r i1 c1 in simp_all)
  next
    case (Some sg0)
    show ?thesis
    proof (cases "ValidityPeriod L sg0 (now + 24 * Hour)")
      case True
      have "sg0 \<in> ran (cache w)" using Some by (auto simp: ran_def)
      with signSet_hit [OF k Some True, of s incep expir] show ?thesis by auto
    next
      case False
      let ?w = "w\<lparr>cache := (cache w)(k := None)\<rparr>"
      have "cache ?w k = None" "inflight ?w k = None" using idle by simp_all
      from fresh [OF this] obtain res w1 where
        r: "signSet L s (r0 # rs) now incep expir ?w = (Return res, w1)"
        and i1: "inflight w1 = inflight ?w"
        and c1: "ran (cache w1) \<subseteq> insert ?f (ran (cache ?w))"
        and o1: "(case res of
            Inr sg \<Rightarrow> sg = ?f \<and> failed_to_sign (log w1) = failed_to_sign (log ?w)
          | Inl e \<Rightarrow> failed_to_sign (log w1) = Suc (failed_to_sign (log ?w)))" by blast
      have "ran (cache ?w) \<subseteq> ran (cache w)" using ran_upd_None [of "cache w" k] by simp
      with c1 have c2: "ran (cache w1) \<subseteq> insert ?f (ran (cache w))" by auto
      have r': "signSet L s (r0 # rs) now incep expir w = (Return res, w1)"
        using signSet_stale [OF k Some False, of s incep expir] r by simp
      show ?thesis
      proof (intro exI [of _ res] exI [of _ w1] conjI)
        show "case res of
              Inr sg \<Rightarrow> (sg \<in> ran (cache w) \<or> sg = ?f)
                \<and> failed_to_sign (log w1) = failed_to_sign (log w)
            | Inl e \<Rightarrow> failed_to_sign (log w1) = Suc (failed_to_sign (log w))"
          using o1 by (cases res) simp_all
      qed (use r' i1 c2 in simp_all)
    qed
  qed
qed

lemma sign_loop_outcome:
  assumes "\<forall>g \<in> set groups. g \<noteq> []" and "inflight w = Map.empty"
  shows "\<exists>app w'. sign_loop L s now incep expir groups sec w = (Return (sec @ map RRSIG_RR app), w')
      \<and> inflight w' = Map.empty
      \<and> set app \<subseteq> ran (cache w)
            \<union> (\<lambda>g. fst (Sign L (PrivKey (config s)) (sig1_stamped s (hd g) incep expir) g)) ` set groups
      \<and> ran (cache w') \<subseteq> ran (cache w)
            \<union> (\<lambda>g. fst (Sign L (PrivKey (config s)) (sig1_stamped s (hd g) incep expir) g)) ` set groups
      \<and> length app + failed_to_sign (log w')
          = failed_to_sign (log w)
            + length (filter (\<lambda>g. Rrtype (Header (hd g)) \<noteq> TypeRRSIG) groups)"
  using assms
proof (induction groups arbitrary: sec w)
  case Nil
  show ?case
    by (intro exI [of _ "[]"] exI [of _ w]) (simp add: Nil.prems)
next
  case (Cons g groups)
  let ?F = "\<lambda>g. fst (Sign L (PrivKey (config s)) (sig1_stamped s (hd g) incep expir) g)"
  let ?N = "\<lambda>gs. length (filter (\<lambda>g. Rrtype (Header (hd g)) \<noteq> TypeRRSIG) gs)"
  from Cons.prems obtain r0 rs where g: "g = r0 # rs" by (cases g) auto
  obtain k where k: "sigCache_key (r0 # rs) = Some k" by simp
  have rest: "\<forall>g \<in> set groups. g \<noteq> []" using Cons.prems by simp
  show ?case
  proof (cases "Rrtype (Header r0) = TypeRRSIG")
    case True
    from Cons.IH [OF rest Cons.prems(2), of sec] obtain app w' where
      l: "sign_loop L s now incep expir groups sec w = (Return (sec @ map RRSIG_RR app), w')"
      and i: "inflight w' = Map.empty"
      and a: "set app \<subseteq> ran (cache w) \<union> ?F ` set groups"
      and c: "ran (cache w') \<subseteq> ran (cache w) \<union> ?F ` set groups"
      and n: "length app + failed_to_sign (log w') = failed_to_sign (log w) + ?N groups" by blast
    show ?thesis
    proof (intro exI [of _ app] exI [of _ w'] conjI)
      show "sign_loop L s now incep expir (g # groups) sec w = (Return (sec @ map RRSIG_RR app), w')"
        using l g True by simp
      show "length app + failed_to_sign (log w') = failed_to_sign (log w) + ?N (g # groups)"
        using n g True by simp
    qed (use i a c in auto)
  next
    case False
    have idle: "inflight w k = None" using Cons.prems(2) by simp
    let ?f = "fst (Sign L (PrivKey (config s)) (sig1_stamped s r0 incep expir) (r0 # rs))"
    have fg: "?F g = ?f" using g by simp
    from signSet_idle_outcome [OF k idle, of L s now incep expir]
    obtain res w1 where s1: "signSet L s (r0 # rs) now incep expir w = (Return res, w1)"
      and i1': "inflight w1 = inflight w"
      and c1': "ran (cache w1) \<subseteq> insert ?f (ran (cache w))"
      and o1': "(case res of
            Inr sg \<Rightarrow> (sg \<in> ran (cache w) \<or> sg = ?f)
              \<and> failed_to_sign (log w1) = failed_to_sign (log w)
          | Inl e \<Rightarrow> failed_to_sign (log w1) = Suc (failed_to_sign (log w)))"
      by blast
    have i1: "inflight w1 = Map.empty" using i1' Cons.prems(2) by simp
    have c1: "ran (cache w1) \<subseteq> insert (?F g) (ran (cache w))" using c1' fg by simp
    have o1: "(case res of
            Inr sg \<Rightarrow> (sg \<in> ran (cache w) \<or> sg = ?F g)
              \<and> failed_to_sign (log w1) = failed_to_sign (log w)
          | Inl e \<Rightarrow> failed_to_sign (log w1) = Suc (failed_to_sign (log w)))"
      unfolding fg by (rule o1')
    show ?thesis
    proof (cases res)
      case (Inl e)
      from Cons.IH [OF rest i1, of sec] obtain app w' where
        l: "sign_loop L s now incep expir groups sec w1 = (Return (sec @ map RRSIG_RR app), w')"
        and i: "inflight w' = Map.empty"
        and a: "set app \<subseteq> ran (cache w1) \<union> ?F ` set groups"
        and c: "ran (cache w') \<subseteq> ran (cache w1) \<union> ?F ` set groups"
        and n: "length app + failed_to_sign (log w') = failed_to_sign (log w1) + ?N groups" by blast
      show ?thesis
      proof (intro exI [of _ app] exI [of _ w'] conjI)
        show "sign_loop L s now incep expir (g # groups) sec w = (Return (sec @ map RRSIG_RR app), w')"
          using l g False s1 Inl by simp
        show "length app + failed_to_sign (log w') = failed_to_sign (log w) + ?N (g # groups)"
          using n g False o1 Inl by simp
        show "set app \<subseteq> ran (cache w) \<union> ?F ` set (g # groups)"
          using a c1 by auto
        show "ran (cache w') \<subseteq> ran (cache w) \<union> ?F ` set (g # groups)"
          using c c1 by auto
      qed (rule i)
    next
      case (Inr sg)
      from Cons.IH [OF rest i1, of "sec @ [RRSIG_RR sg]"] obtain app w' where
        l: "sign_loop L s now incep expir groups (sec @ [RRSIG_RR sg]) w1
              = (Return ((sec @ [RRSIG_RR sg]) @ map RRSIG_RR app), w')"
        and i: "inflight w' = Map.empty"
        and a: "set app \<subseteq> ran (cache w1) \<union> ?F ` set groups"
        and c: "ran (cache w') \<subseteq> ran (cache w1) \<union> ?F ` set groups"
        and n: "length app + failed_to_sign (log w') = failed_to_sign (log w1) + ?N groups" by blast
      have sg: "sg \<in> ran (cache w) \<or> sg = ?F g" using o1 Inr by simp
      show ?thesis
      proof (intro exI [of _ "sg # app"] exI [of _ w'] conjI)
        show "sign_loop L s now incep expir (g # groups) sec w
                = (Return (sec @ map RRSIG_RR (sg # app)), w')"
          using l g False s1 Inr by simp
        show "length (sg # app) + failed_to_sign (log w')
                = failed_to_sign (log w) + ?N (g # groups)"
          using n g False o1 Inr by simp
        show "set (sg # app) \<subseteq> ran (cache w) \<union> ?F ` set (g # groups)"
          using a c1 sg by auto
        show "ran (cache w') \<subseteq> ran (cache w) \<union> ?F ` set (g # groups)"
          using c c1 by auto
      qed (rule i)
    qed
  qed
qed

lemma range_groups_nonempty:
  assumes "\<forall>xs. set (rangeOrder L xs) \<subseteq> set xs"
  shows "\<forall>g \<in> set (range_groups L rrs). g \<noteq> []"
  using assms rrSets_nonempty [of rrs] by auto

text \<open>The three ranges of sign, one after the other, on an idle registry.\<close>

lemma sign_sections:
  assumes sub: "\<forall>xs. set (rangeOrder L xs) \<subseteq> set xs" and idle: "inflight w = Map.empty"
  shows "\<exists>sa wa sn wn se wx m'.
      sign_loop L s now (word_of_int (Unix now - 10800)) (word_of_int (Unix now + 604800))
          (range_groups L (Answer m)) (Answer m) w = (Return (Answer m @ map RRSIG_RR sa), wa)
    \<and> sign_loop L s now (word_of_int (Unix now - 10800)) (word_of_int (Unix now + 604800))
          (range_groups L (Ns m)) (Ns m) wa = (Return (Ns m @ map RRSIG_RR sn), wn)
    \<and> sign_loop L s now (word_of_int (Unix now - 10800)) (word_of_int (Unix now + 604800))
          (range_groups L (Extra m)) (Extra m) wn = (Return (Extra m @ map RRSIG_RR se), wx)
    \<and> sign L s m bufsize now w = (Return m', wx)
    \<and> Answer m' = Answer m @ map RRSIG_RR sa
    \<and> Ns m' = Ns m @ map RRSIG_RR sn
    \<and> Extra m' = Extra m @ map RRSIG_RR se
          @ [OPT_RR \<lparr>Hdr = \<lparr>Name = ''.'', Rrtype = TypeOPT, Class = 4096, RR_Header.Ttl = 0x8000\<rparr>\<rparr>]
    \<and> set (sa @ sn @ se) \<subseteq> ran (cache w)
          \<union> (\<lambda>g. fst (Sign L (PrivKey (config s))
                  (sig1_stamped s (hd g) (word_of_int (Unix now - 10800))
                     (word_of_int (Unix now + 604800))) g))
            ` (set (range_groups L (Answer m)) \<union> set (range_groups L (Ns m))
                 \<union> set (range_groups L (Extra m)))
    \<and> length sa + length sn + length se + failed_to_sign (log wx)
        = failed_to_sign (log w)
          + length (filter (\<lambda>g. Rrtype (Header (hd g)) \<noteq> TypeRRSIG) (range_groups L (Answer m)))
          + length (filter (\<lambda>g. Rrtype (Header (hd g)) \<noteq> TypeRRSIG) (range_groups L (Ns m)))
          + length (filter (\<lambda>g. Rrtype (Header (hd g)) \<noteq> TypeRRSIG) (range_groups L (Extra m)))"
proof -
  define i :: u32 where "i = word_of_int (Unix now - 10800)"
  define e :: u32 where "e = word_of_int (Unix now + 604800)"
  have ie: "word_of_int (Unix (now - 10800000000000)) = i"
      "word_of_int (Unix (now + 604800000000000)) = e"
    by (simp_all only: i_def e_def Unix_minus_3h Unix_plus_7d)
  let ?F = "\<lambda>g. fst (Sign L (PrivKey (config s)) (sig1_stamped s (hd g) i e) g)"
  let ?N = "\<lambda>gs. length (filter (\<lambda>g. Rrtype (Header (hd g)) \<noteq> TypeRRSIG) gs)"
  let ?opt = "OPT_RR \<lparr>Hdr = \<lparr>Name = ''.'', Rrtype = TypeOPT, Class = 4096, RR_Header.Ttl = 0x8000\<rparr>\<rparr>"
  from sign_loop_outcome [OF range_groups_nonempty [OF sub, of "Answer m"] idle,
      where s = s and now = now and incep = i and expir = e and sec = "Answer m"]
  obtain sa wa where
    l1: "sign_loop L s now i e (range_groups L (Answer m)) (Answer m) w
           = (Return (Answer m @ map RRSIG_RR sa), wa)"
    and i1: "inflight wa = Map.empty"
    and a1: "set sa \<subseteq> ran (cache w) \<union> ?F ` set (range_groups L (Answer m))"
    and c1: "ran (cache wa) \<subseteq> ran (cache w) \<union> ?F ` set (range_groups L (Answer m))"
    and n1: "length sa + failed_to_sign (log wa)
           = failed_to_sign (log w) + ?N (range_groups L (Answer m))" by blast
  from sign_loop_outcome [OF range_groups_nonempty [OF sub, of "Ns m"] i1,
      where s = s and now = now and incep = i and expir = e and sec = "Ns m"]
  obtain sn wn where
    l2: "sign_loop L s now i e (range_groups L (Ns m)) (Ns m) wa
           = (Return (Ns m @ map RRSIG_RR sn), wn)"
    and i2: "inflight wn = Map.empty"
    and a2: "set sn \<subseteq> ran (cache wa) \<union> ?F ` set (range_groups L (Ns m))"
    and c2: "ran (cache wn) \<subseteq> ran (cache wa) \<union> ?F ` set (range_groups L (Ns m))"
    and n2: "length sn + failed_to_sign (log wn)
           = failed_to_sign (log wa) + ?N (range_groups L (Ns m))" by blast
  from sign_loop_outcome [OF range_groups_nonempty [OF sub, of "Extra m"] i2,
      where s = s and now = now and incep = i and expir = e and sec = "Extra m"]
  obtain se wx where
    l3: "sign_loop L s now i e (range_groups L (Extra m)) (Extra m) wn
           = (Return (Extra m @ map RRSIG_RR se), wx)"
    and a3: "set se \<subseteq> ran (cache wn) \<union> ?F ` set (range_groups L (Extra m))"
    and n3: "length se + failed_to_sign (log wx)
           = failed_to_sign (log wn) + ?N (range_groups L (Extra m))" by blast
  obtain m' where sg: "sign L s m bufsize now w = (Return m', wx)"
    and am: "Answer m' = Answer m @ map RRSIG_RR sa"
    and nm: "Ns m' = Ns m @ map RRSIG_RR sn"
    and em: "Extra m' = Extra m @ map RRSIG_RR se @ [?opt]"
    by (simp add: sign_def Let_def ie l1 l2 l3)
  let ?A = "?F ` set (range_groups L (Answer m))"
  let ?B = "?F ` set (range_groups L (Ns m))"
  let ?C = "?F ` set (range_groups L (Extra m))"
  have o1: "set sa \<subseteq> ran (cache w) \<union> (?A \<union> ?B \<union> ?C)" using a1 by blast
  have o2: "set sn \<subseteq> ran (cache w) \<union> (?A \<union> ?B \<union> ?C)" using a2 c1 by blast
  have "ran (cache wn) \<subseteq> ran (cache w) \<union> (?A \<union> ?B)" using c2 c1 by blast
  with a3 have o3: "set se \<subseteq> ran (cache w) \<union> (?A \<union> ?B \<union> ?C)" by blast
  have un: "?F ` (set (range_groups L (Answer m)) \<union> set (range_groups L (Ns m))
                 \<union> set (range_groups L (Extra m))) = ?A \<union> ?B \<union> ?C"
    by (simp only: image_Un)
  have orig: "set (sa @ sn @ se) \<subseteq> ran (cache w)
      \<union> ?F ` (set (range_groups L (Answer m)) \<union> set (range_groups L (Ns m))
                 \<union> set (range_groups L (Extra m)))"
    unfolding un using o1 o2 o3 by simp
  have cnt: "length sa + length sn + length se + failed_to_sign (log wx)
        = failed_to_sign (log w) + ?N (range_groups L (Answer m))
          + ?N (range_groups L (Ns m)) + ?N (range_groups L (Extra m))"
    using n1 n2 n3 by arith
  from l1 l2 l3 sg am nm em orig cnt show ?thesis
    unfolding i_def e_def by blast
qed

text \<open>
  Claim C7. When the signing primitive fails for a set (no usable cache entry, no call
  pending), \<open>signSet\<close> returns the error and no signature, the cache holds nothing
  under the fingerprint of the set and is otherwise unchanged, and the \<open>range\<close> of
  \<open>sign\<close> goes on with the remaining groups, the section as it was. Whatever the
  primitive answers, on an idle registry \<open>sign\<close> runs its three ranges one after the
  other, each over all the groups of its section and on the state the one before left,
  and returns the message made of their results: no error leaves it. Every group that is
  not itself a signature either adds one signature to its section or one
  \<open>failed to sign\<close> line to the log, so none is skipped.
\<close>

theorem sign_failure_is_local:
  "(sigCache_key (r0 # rs) = Some k \<and> Rrtype (Header r0) \<noteq> TypeRRSIG \<and> inflight w k = None
      \<and> (\<nexists>sg. cache w k = Some sg \<and> ValidityPeriod L sg (now + 24 * Hour))
      \<and> Sign L (PrivKey (config s)) (sig1_stamped s r0 incep expir) (r0 # rs) = (sg', Some msg)
    \<longrightarrow> (\<exists>w'. signSet L s (r0 # rs) now incep expir w = (Return (Inl msg), w')
            \<and> cache w' = (cache w)(k := None)
            \<and> sign_loop L s now incep expir ((r0 # rs) # groups) sec w
                = sign_loop L s now incep expir groups sec w'))
   \<and> ((\<forall>xs. set (rangeOrder L xs) \<subseteq> set xs) \<and> inflight w0 = Map.empty
    \<longrightarrow> (\<exists>sa wa sn wn se wx m'.
          sign_loop L s now0 (word_of_int (Unix now0 - 10800)) (word_of_int (Unix now0 + 604800))
              (range_groups L (Answer m)) (Answer m) w0 = (Return (Answer m @ map RRSIG_RR sa), wa)
        \<and> sign_loop L s now0 (word_of_int (Unix now0 - 10800)) (word_of_int (Unix now0 + 604800))
              (range_groups L (Ns m)) (Ns m) wa = (Return (Ns m @ map RRSIG_RR sn), wn)
        \<and> sign_loop L s now0 (word_of_int (Unix now0 - 10800)) (word_of_int (Unix now0 + 604800))
              (range_groups L (Extra m)) (Extra m) wn = (Return (Extra m @ map RRSIG_RR se), wx)
        \<and> sign L s m bufsize now0 w0 = (Return m', wx)
        \<and> Answer m' = Answer m @ map RRSIG_RR sa
        \<and> Ns m' = Ns m @ map RRSIG_RR sn
        \<and> Extra m' = Extra m @ map RRSIG_RR se
              @ [OPT_RR \<lparr>Hdr = \<lparr>Name = ''.'', Rrtype = TypeOPT, Class = 4096,
                                RR_Header.Ttl = 0x8000\<rparr>\<rparr>]
        \<and> length sa + length sn + length se + failed_to_sign (log wx)
            = failed_to_sign (log w0)
              + length (filter (\<lambda>g. Rrtype (Header (hd g)) \<noteq> TypeRRSIG)
                          (range_groups L (Answer m)))
              + length (filter (\<lambda>g. Rrtype (Header (hd g)) \<noteq> TypeRRSIG)
                          (range_groups L (Ns m)))
              + length (filter (\<lambda>g. Rrtype (Header (hd g)) \<noteq> TypeRRSIG)
                          (range_groups L (Extra m)))))"
proof (intro conjI impI)
  assume a: "sigCache_key (r0 # rs) = Some k \<and> Rrtype (Header r0) \<noteq> TypeRRSIG \<and> inflight w k = None
      \<and> (\<nexists>sg. cache w k = Some sg \<and> ValidityPeriod L sg (now + 24 * Hour))
      \<and> Sign L (PrivKey (config s)) (sig1_stamped s r0 incep expir) (r0 # rs) = (sg', Some msg)"
  then have k: "sigCache_key (r0 # rs) = Some k" and ty: "Rrtype (Header r0) \<noteq> TypeRRSIG"
    and idle: "inflight w k = None"
    and nohit: "\<nexists>sg. cache w k = Some sg \<and> ValidityPeriod L sg (now + 24 * Hour)"
    and sgn: "Sign L (PrivKey (config s)) (sig1_stamped s r0 incep expir) (r0 # rs) = (sg', Some msg)"
    by simp_all
  let ?w = "w\<lparr>cache := (cache w)(k := None)\<rparr>"
  have c: "cache ?w k = None" and i: "inflight ?w k = None" using idle by simp_all
  have eq: "signSet L s (r0 # rs) now incep expir w = signSet L s (r0 # rs) now incep expir ?w"
  proof (cases "cache w k")
    case None
    then have "(cache w)(k := None) = cache w" by (simp add: fun_upd_idem)
    then show ?thesis by simp
  next
    case (Some sg0)
    with nohit have "\<not> ValidityPeriod L sg0 (now + 24 * Hour)" by simp
    from signSet_stale [OF k Some this] show ?thesis .
  qed
  from signSet_fresh_err [OF k c i sgn, of now] eq
  obtain w' where s1: "signSet L s (r0 # rs) now incep expir w = (Return (Inl msg), w')"
    and c1: "cache w' = (cache w)(k := None)" by simp
  have "sign_loop L s now incep expir ((r0 # rs) # groups) sec w
                = sign_loop L s now incep expir groups sec w'"
    using ty s1 by simp
  with s1 c1 show "\<exists>w'. signSet L s (r0 # rs) now incep expir w = (Return (Inl msg), w')
            \<and> cache w' = (cache w)(k := None)
            \<and> sign_loop L s now incep expir ((r0 # rs) # groups) sec w
                = sign_loop L s now incep expir groups sec w'" by blast
next
  assume "(\<forall>xs. set (rangeOrder L xs) \<subseteq> set xs) \<and> inflight w0 = Map.empty"
  then have sub: "\<forall>xs. set (rangeOrder L xs) \<subseteq> set xs" and idle: "inflight w0 = Map.empty"
    by simp_all
  from sign_sections [OF sub idle, of s now0 m bufsize]
  show "\<exists>sa wa sn wn se wx m'.
          sign_loop L s now0 (word_of_int (Unix now0 - 10800)) (word_of_int (Unix now0 + 604800))
              (range_groups L (Answer m)) (Answer m) w0 = (Return (Answer m @ map RRSIG_RR sa), wa)
        \<and> sign_loop L s now0 (word_of_int (Unix now0 - 10800)) (word_of_int (Unix now0 + 604800))
              (range_groups L (Ns m)) (Ns m) wa = (Return (Ns m @ map RRSIG_RR sn), wn)
        \<and> sign_loop L s now0 (word_of_int (Unix now0 - 10800)) (word_of_int (Unix now0 + 604800))
              (range_groups L (Extra m)) (Extra m) wn = (Return (Extra m @ map RRSIG_RR se), wx)
        \<and> sign L s m bufsize now0 w0 = (Return m', wx)
        \<and> Answer m' = Answer m @ map RRSIG_RR sa
        \<and> Ns m' = Ns m @ map RRSIG_RR sn
        \<and> Extra m' = Extra m @ map RRSIG_RR se
              @ [OPT_RR \<lparr>Hdr = \<lparr>Name = ''.'', Rrtype = TypeOPT, Class = 4096,
                                RR_Header.Ttl = 0x8000\<rparr>\<rparr>]
        \<and> length sa + length sn + length se + failed_to_sign (log wx)
            = failed_to_sign (log w0)
              + length (filter (\<lambda>g. Rrtype (Header (hd g)) \<noteq> TypeRRSIG)
                          (range_groups L (Answer m)))
              + length (filter (\<lambda>g. Rrtype (Header (hd g)) \<noteq> TypeRRSIG)
                          (range_groups L (Ns m)))
              + length (filter (\<lambda>g. Rrtype (Header (hd g)) \<noteq> TypeRRSIG)
                          (range_groups L (Extra m)))"
    by blast
qed



lemma SRV_Port_differs: "p \<noteq> p' \<Longrightarrow> (t :: SRV)\<lparr>Port := p\<rparr> \<noteq> t\<lparr>Port := p'\<rparr>"
proof
  assume "p \<noteq> p'" and "t\<lparr>Port := p\<rparr> = t\<lparr>Port := p'\<rparr>"
  then have "Port (t\<lparr>Port := p\<rparr>) = Port (t\<lparr>Port := p'\<rparr>)" by simp
  with \<open>p \<noteq> p'\<close> show False by simp
qed

lemma sigCache_key_SRV_port:
  "sigCache_key (SRV_RR (t\<lparr>Port := p\<rparr>) # rs) = sigCache_key (SRV_RR (t\<lparr>Port := p'\<rparr>) # rs)"
  by simp

text \<open>
  Claim C6. Two SRV sets that differ in the port only are different sets with the same
  fingerprint (the weight is folded in twice, the port never), for every choice of the
  other fields; and when the cache holds a valid signature under the fingerprint of one,
  \<open>signSet\<close> on the other returns that signature.
\<close>

theorem SRV_port_not_in_key:
  "(p \<noteq> p' \<longrightarrow> [SRV_RR (t\<lparr>Port := p\<rparr>)] \<noteq> [SRV_RR (t\<lparr>Port := p'\<rparr>)])
   \<and> sigCache_key (SRV_RR (t\<lparr>Port := p\<rparr>) # rs) = sigCache_key (SRV_RR (t\<lparr>Port := p'\<rparr>) # rs)
   \<and> (sigCache_key [SRV_RR (t\<lparr>Port := p\<rparr>)] = Some k \<and> cache w k = Some sg
        \<and> ValidityPeriod L sg (now + 24 * Hour)
      \<longrightarrow> signSet L s [SRV_RR (t\<lparr>Port := p'\<rparr>)] now incep expir w = (Return (Inr sg), w))"
proof (intro conjI impI)
  assume "p \<noteq> p'"
  then show "[SRV_RR (t\<lparr>Port := p\<rparr>)] \<noteq> [SRV_RR (t\<lparr>Port := p'\<rparr>)]"
    using SRV_Port_differs by blast
next
  show "sigCache_key (SRV_RR (t\<lparr>Port := p\<rparr>) # rs) = sigCache_key (SRV_RR (t\<lparr>Port := p'\<rparr>) # rs)"
    by (rule sigCache_key_SRV_port)
next
  assume a: "sigCache_key [SRV_RR (t\<lparr>Port := p\<rparr>)] = Some k \<and> cache w k = Some sg
        \<and> ValidityPeriod L sg (now + 24 * Hour)"
  then have "sigCache_key [SRV_RR (t\<lparr>Port := p'\<rparr>)] = Some k"
    using sigCache_key_SRV_port [of p t "[]" p'] by simp
  from signSet_hit [OF this] a
  show "signSet L s [SRV_RR (t\<lparr>Port := p'\<rparr>)] now incep expir w = (Return (Inr sg), w)"
    by blast
qed

section \<open>The properties on concrete inputs\<close>

lemma test_key_www_eval: "sigCache_key [test_a ''www.example.com.''] = Some test_key_www"
  by (simp add: test_a_def test_key_www_def bytes_of_def packUint16_def)

lemma test_Sign_www:
  "Sign (testlib []) k
      (sig1_stamped test_server (test_a ''www.example.com.'') incep expir) [test_a ''www.example.com.'']
   = (test_sig_www incep expir, None)"
  by (simp add: testlib_def test_Sign_def sig1_stamped_def test_server_def test_a_def test_sig_www_def)

lemma test_first_signSet:
  "signSet (testlib []) test_server [test_a ''www.example.com.''] now incep expir test_world
     = (Return (Inr (test_sig_www incep expir)), test_world_signed (test_sig_www incep expir))"
proof -
  have c: "cache test_world test_key_www = None" and i: "inflight test_world test_key_www = None"
    by (simp_all add: test_world_def)
  from signSet_fresh_ok [OF test_key_www_eval c i test_Sign_www, of now incep expir]
  show ?thesis
    by (simp add: test_world_signed_def test_world_def test_a_def)
qed

lemma testlib_rangeOrder: "rangeOrder (testlib f) xs = xs"
  by (simp add: testlib_def)

lemma testlib_Len:
  "Len (testlib f) m = 12 + 64 * int (length (Answer m) + length (Ns m) + length (Extra m))"
  by (simp add: testlib_def)

lemma rrSets_Nil: "rrSets [] = []"
  by (simp add: rrSets_def)

lemma test_now_stamps:
  "(word_of_int (Unix (test_now - 10800000000000)) :: u32) = 1699989200"
  "(word_of_int (Unix (test_now + 604800000000000)) :: u32) = 1700604800"
  by (simp_all add: Unix_def test_now_def)

lemma sign_eval1:
  "sign (testlib []) test_server (test_reply [test_a ''www.example.com.''] []) 4096 test_now test_world
   = (Return ((test_reply [test_a ''www.example.com.'', RRSIG_RR (test_sig_www 1699989200 1700604800)] [])
         \<lparr>Extra := [OPT_RR \<lparr>Hdr = \<lparr>Name = ''.'', Rrtype = TypeOPT, Class = 4096, RR_Header.Ttl = 0x8000\<rparr>\<rparr>]\<rparr>),
      test_world_signed (test_sig_www 1699989200 1700604800))"
proof -
  have g: "rrSets [test_a ''www.example.com.''] = [((''www.example.com.'', 1), [test_a ''www.example.com.''])]"
    by (simp add: rrSets_def test_a_def)
  have t: "Rrtype (Header (test_a ''www.example.com.'')) \<noteq> TypeRRSIG"
    by (simp add: test_a_def)
  have l1: "sign_loop (testlib []) test_server test_now 1699989200 1700604800
              [[test_a ''www.example.com.'']] [test_a ''www.example.com.''] test_world
            = (Return [test_a ''www.example.com.'', RRSIG_RR (test_sig_www 1699989200 1700604800)],
               test_world_signed (test_sig_www 1699989200 1700604800))"
    using t by (simp add: test_first_signSet)
  show ?thesis
    by (simp add: sign_def Let_def test_reply_def g rrSets_Nil testlib_rangeOrder testlib_Len
          test_now_stamps l1 del: sign_loop.simps(2))
qed

lemma test_valid_48h:
  "ValidityPeriod (testlib []) (test_sig_www 1699989200 1700604800) (test_day1 + 24 * Hour)"
  by (simp add: testlib_def test_ValidityPeriod_def test_sig_www_def Unix_def test_now_def test_day1_def)

lemma test_valid_156h:
  "ValidityPeriod (testlib []) (test_sig_www 1699989200 1700604800) test_day7"
  by (simp add: testlib_def test_ValidityPeriod_def test_sig_www_def Unix_def test_now_def test_day7_def)

lemma test_stale_180h:
  "\<not> ValidityPeriod (testlib []) (test_sig_www 1699989200 1700604800) (test_day7 + 24 * Hour)"
  by (simp add: testlib_def test_ValidityPeriod_def test_sig_www_def Unix_def test_now_def test_day7_def)

lemma test_signed_fields:
  "cache (test_world_signed sg) test_key_www = Some sg"
  "inflight (test_world_signed sg) test_key_www = None"
  "signCalls (test_world_signed sg) = 1"
  "StatsDnssecCacheMiss (test_world_signed sg) = 1"
  by (simp_all add: test_world_signed_def test_world_def)

text \<open>The second call, made when the cached signature has less than 24 hours left.\<close>

lemma test_second_signSet:
  "signSet (testlib []) test_server [test_a ''www.example.com.''] test_day7 incep expir
      (test_world_signed (test_sig_www 1699989200 1700604800))
     = (Return (Inr (test_sig_www incep expir)),
        (test_world_signed (test_sig_www 1699989200 1700604800))\<lparr>
          log := [Infof_cache_miss ''www.example.com.'' 1, Infof_cache_miss ''www.example.com.'' 1],
          StatsDnssecCacheMiss := 2,
          ncalls := 2,
          calls := (calls (test_world_signed (test_sig_www 1699989200 1700604800)))
                     (1 := \<lparr>wg = 0, val = Some (test_sig_www incep expir), err = None, dups = 0\<rparr>),
          signCalls := 2,
          cache := [test_key_www \<mapsto> test_sig_www incep expir]\<rparr>)"
proof -
  let ?w1 = "test_world_signed (test_sig_www 1699989200 1700604800)"
  let ?w = "?w1\<lparr>cache := (cache ?w1)(test_key_www := None)\<rparr>"
  have c: "cache ?w test_key_www = None" and i: "inflight ?w test_key_www = None"
    by (simp_all add: test_signed_fields)
  from signSet_stale [OF test_key_www_eval test_signed_fields(1) test_stale_180h, of test_server incep expir]
       signSet_fresh_ok [OF test_key_www_eval c i test_Sign_www, of test_day7 incep expir]
  show ?thesis
    by (simp add: test_world_signed_def test_world_def test_a_def)
qed

text \<open>The property on the cache that holds the signature made at
  \<open>test_now\<close>: a day later it is returned as it is; six and a half days later it has
  less than 24 hours left, is replaced by a fresh one, and the primitive has run a second
  time.\<close>

theorem signSet_cache_lookup_witness:
  "sigCache_key [test_a ''www.example.com.''] = Some test_key_www
   \<and> cache (test_world_signed (test_sig_www 1699989200 1700604800)) test_key_www
       = Some (test_sig_www 1699989200 1700604800)
   \<and> ValidityPeriod (testlib []) (test_sig_www 1699989200 1700604800) (test_day1 + 24 * Hour)
   \<and> signSet (testlib []) test_server [test_a ''www.example.com.''] test_day1
         1700075600 1700691200 (test_world_signed (test_sig_www 1699989200 1700604800))
       = (Return (Inr (test_sig_www 1699989200 1700604800)),
          test_world_signed (test_sig_www 1699989200 1700604800))
   \<and> \<not> ValidityPeriod (testlib []) (test_sig_www 1699989200 1700604800)
          (test_day7 + 24 * Hour)
   \<and> inflight (test_world_signed (test_sig_www 1699989200 1700604800)) test_key_www = None
   \<and> signCalls (snd (signSet (testlib []) test_server [test_a ''www.example.com.'']
         test_day7 1700550800 1701166400
         (test_world_signed (test_sig_www 1699989200 1700604800)))) = 2
   \<and> cache (snd (signSet (testlib []) test_server [test_a ''www.example.com.'']
         test_day7 1700550800 1701166400
         (test_world_signed (test_sig_www 1699989200 1700604800))))
       = [test_key_www \<mapsto> test_sig_www 1700550800 1701166400]"
proof -
  let ?sg = "test_sig_www 1699989200 1700604800"
  let ?w1 = "test_world_signed ?sg"
  note hit = signSet_cache_lookup [OF test_key_www_eval test_signed_fields(1),
      where L = "testlib []" and now = test_day1 and s = test_server
        and incep = 1700075600 and expir = 1700691200]
  note stale = signSet_cache_lookup [OF test_key_www_eval test_signed_fields(1),
      where L = "testlib []" and now = test_day7 and s = test_server
        and incep = 1700550800 and expir = 1701166400]
  from hit test_valid_48h
  have a: "signSet (testlib []) test_server [test_a ''www.example.com.''] test_day1
         1700075600 1700691200 ?w1 = (Return (Inr ?sg), ?w1)" by blast
  from stale test_stale_180h test_signed_fields(2)
  have b: "signCalls (snd (signSet (testlib []) test_server [test_a ''www.example.com.'']
         test_day7 1700550800 1701166400 ?w1)) = Suc (signCalls ?w1)"
    and c: "cache (snd (signSet (testlib []) test_server [test_a ''www.example.com.'']
         test_day7 1700550800 1701166400 ?w1)) =
         (case Sign (testlib []) (PrivKey (config test_server))
                 (sig1_stamped test_server (hd [test_a ''www.example.com.'']) 1700550800 1701166400)
                 [test_a ''www.example.com.''] of
            (sg', None) \<Rightarrow> (cache ?w1)(test_key_www \<mapsto> sg')
          | (sg', Some e) \<Rightarrow> (cache ?w1)(test_key_www := None))"
    by blast+
  have c': "cache (snd (signSet (testlib []) test_server [test_a ''www.example.com.'']
         test_day7 1700550800 1701166400 ?w1))
       = [test_key_www \<mapsto> test_sig_www 1700550800 1701166400]"
    unfolding c by (simp add: test_Sign_www test_world_signed_def)
  show ?thesis
    using a b c' test_key_www_eval test_signed_fields test_valid_48h test_stale_180h by simp
qed

text \<open>The property on the A set of \<open>www.example.com.\<close>: it is signed at \<open>test_now\<close> and asked for again a
  day later.\<close>

theorem signSet_twice_witness:
  "sigCache_key [test_a ''www.example.com.''] = Some test_key_www
   \<and> inflight test_world test_key_www = None
   \<and> cache test_world test_key_www = None
   \<and> signSet (testlib []) test_server [test_a ''www.example.com.''] test_now 1699989200 1700604800
         test_world
       = (Return (Inr (test_sig_www 1699989200 1700604800)),
          test_world_signed (test_sig_www 1699989200 1700604800))
   \<and> ValidityPeriod (testlib []) (test_sig_www 1699989200 1700604800) (test_day1 + 24 * Hour)
   \<and> signSet (testlib []) test_server [test_a ''www.example.com.''] test_day1
         1700075600 1700691200 (test_world_signed (test_sig_www 1699989200 1700604800))
       = (Return (Inr (test_sig_www 1699989200 1700604800)),
          test_world_signed (test_sig_www 1699989200 1700604800))
   \<and> signCalls (test_world_signed (test_sig_www 1699989200 1700604800)) = Suc (signCalls test_world)"
proof -
  have i: "inflight test_world test_key_www = None" and c: "cache test_world test_key_www = None"
    by (simp_all add: test_world_def)
  from signSet_twice [OF test_key_www_eval i test_first_signSet test_valid_48h,
      where ?incep2.0 = 1700075600 and ?expir2.0 = 1700691200]
  show ?thesis
    using i c test_key_www_eval test_first_signSet test_valid_48h by simp
qed

lemma sign_eval2:
  "sign (testlib []) test_server (test_reply [test_a ''www.example.com.''] []) 4096
      test_day7 (test_world_signed (test_sig_www 1699989200 1700604800))
   = (Return ((test_reply [test_a ''www.example.com.'', RRSIG_RR (test_sig_www 1700550800 1701166400)] [])
         \<lparr>Extra := [OPT_RR \<lparr>Hdr = \<lparr>Name = ''.'', Rrtype = TypeOPT, Class = 4096, RR_Header.Ttl = 0x8000\<rparr>\<rparr>]\<rparr>),
      (test_world_signed (test_sig_www 1699989200 1700604800))\<lparr>
          log := [Infof_cache_miss ''www.example.com.'' 1, Infof_cache_miss ''www.example.com.'' 1],
          StatsDnssecCacheMiss := 2,
          ncalls := 2,
          calls := (calls (test_world_signed (test_sig_www 1699989200 1700604800)))
                     (1 := \<lparr>wg = 0, val = Some (test_sig_www 1700550800 1701166400), err = None, dups = 0\<rparr>),
          signCalls := 2,
          cache := [test_key_www \<mapsto> test_sig_www 1700550800 1701166400]\<rparr>)"
proof -
  have g: "rrSets [test_a ''www.example.com.''] = [((''www.example.com.'', 1), [test_a ''www.example.com.''])]"
    by (simp add: rrSets_def test_a_def)
  have t: "Rrtype (Header (test_a ''www.example.com.'')) \<noteq> TypeRRSIG"
    by (simp add: test_a_def)
  have u: "(word_of_int (Unix (test_day7 - 10800000000000)) :: u32) = 1700550800"
      "(word_of_int (Unix (test_day7 + 604800000000000)) :: u32) = 1701166400"
    by (simp_all add: Unix_def test_now_def test_day7_def)
  have l1: "sign_loop (testlib []) test_server test_day7 1700550800 1701166400
              [[test_a ''www.example.com.'']] [test_a ''www.example.com.'']
              (test_world_signed (test_sig_www 1699989200 1700604800))
            = (Return [test_a ''www.example.com.'', RRSIG_RR (test_sig_www 1700550800 1701166400)],
               snd (signSet (testlib []) test_server [test_a ''www.example.com.'']
                  test_day7 1700550800 1701166400
                  (test_world_signed (test_sig_www 1699989200 1700604800))))"
    using t by (simp add: test_second_signSet)
  show ?thesis
    using l1 u
    by (simp add: sign_def Let_def test_reply_def g rrSets_Nil testlib_rangeOrder testlib_Len
          test_second_signSet del: sign_loop.simps(2))
qed

text \<open>
  Claim C3 as stated fails: the same reply is signed at \<open>test_now\<close> and again six and
  a half days later. The first signature is still in its validity window at the second
  call, but it is not valid 24 hours later, so the second call signs again: the two
  signature records differ and the primitive has run twice.
\<close>

theorem sign_twice_counterexample:
  "fst (sign (testlib []) test_server (test_reply [test_a ''www.example.com.''] []) 4096 test_now
          test_world)
     = Return ((test_reply [test_a ''www.example.com.'',
                            RRSIG_RR (test_sig_www 1699989200 1700604800)] [])
         \<lparr>Extra := [OPT_RR \<lparr>Hdr = \<lparr>Name = ''.'', Rrtype = TypeOPT, Class = 4096, RR_Header.Ttl = 0x8000\<rparr>\<rparr>]\<rparr>)
   \<and> ValidityPeriod (testlib []) (test_sig_www 1699989200 1700604800) test_day7
   \<and> fst (sign (testlib []) test_server (test_reply [test_a ''www.example.com.''] []) 4096
          test_day7
          (snd (sign (testlib []) test_server (test_reply [test_a ''www.example.com.''] []) 4096
                  test_now test_world)))
     = Return ((test_reply [test_a ''www.example.com.'',
                            RRSIG_RR (test_sig_www 1700550800 1701166400)] [])
         \<lparr>Extra := [OPT_RR \<lparr>Hdr = \<lparr>Name = ''.'', Rrtype = TypeOPT, Class = 4096, RR_Header.Ttl = 0x8000\<rparr>\<rparr>]\<rparr>)
   \<and> signCalls (snd (sign (testlib []) test_server (test_reply [test_a ''www.example.com.''] [])
          4096 test_day7
          (snd (sign (testlib []) test_server (test_reply [test_a ''www.example.com.''] []) 4096
                  test_now test_world)))) = 2
   \<and> test_sig_www 1699989200 1700604800 \<noteq> test_sig_www 1700550800 1701166400"
  by (simp add: sign_eval1 sign_eval2 test_valid_156h) (simp add: test_sig_www_def)

lemmas sign_run_defs = sign_def signSet_def single_Do_def signSet_func1_def NewRRSIG_def
  sigCache_search_def sigCache_insert_def sigCache_remove_def
  testlib_def test_Sign_def test_ValidityPeriod_def test_server_def test_reply_def test_a_def
  test_soa_def test_world_def test_now_def rrSets_def Unix_def Let_def
  bytes_of_def packUint16_def packUint32_def sha1_of_nothing_def


lemma sign_eval_bad_extra:
  "fst (sign (testlib [''bad.example.com.'']) test_server
          ((test_reply [test_a ''bad.example.com.''] [test_soa])\<lparr>Extra := [test_a ''ns.example.com.'']\<rparr>)
          4096 test_now test_world)
   = Return ((test_reply [test_a ''bad.example.com.'']
        [test_soa,
         RRSIG_RR \<lparr>Hdr = \<lparr>Name = ''example.com.'', Rrtype = TypeRRSIG, Class = 1, RR_Header.Ttl = 60\<rparr>,
            TypeCovered = 6, RRSIG.Algorithm = 5, Labels = 2, OrigTtl = 3600,
            Expiration = 1700604800, Inception = 1699989200, RRSIG.KeyTag = 51945,
            SignerName = ''example.com.'', Signature = ''c2lnbmVk''\<rparr>])
       \<lparr>Extra := [test_a ''ns.example.com.'',
          RRSIG_RR \<lparr>Hdr = \<lparr>Name = ''ns.example.com.'', Rrtype = TypeRRSIG, Class = 1, RR_Header.Ttl = 300\<rparr>,
            TypeCovered = 1, RRSIG.Algorithm = 5, Labels = 3, OrigTtl = 3600,
            Expiration = 1700604800, Inception = 1699989200, RRSIG.KeyTag = 51945,
            SignerName = ''example.com.'', Signature = ''c2lnbmVk''\<rparr>,
          OPT_RR \<lparr>Hdr = \<lparr>Name = ''.'', Rrtype = TypeOPT, Class = 4096, RR_Header.Ttl = 0x8000\<rparr>\<rparr>]\<rparr>)"
  by (simp add: sign_run_defs)

lemma sign_eval_bad_extra_log:
  "log (snd (sign (testlib [''bad.example.com.'']) test_server
          ((test_reply [test_a ''bad.example.com.''] [test_soa])\<lparr>Extra := [test_a ''ns.example.com.'']\<rparr>)
          4096 test_now test_world))
   = [Infof_cache_miss ''bad.example.com.'' 1, Errorf_failed_to_sign ''dns: bad signature'',
      Infof_cache_miss ''example.com.'' 6, Infof_cache_miss ''ns.example.com.'' 1]"
  by (simp add: sign_run_defs)

text \<open>The property on a reply whose answer set cannot be signed: the answer section
  stays without signature, the cache stays empty, the authority section and the
  additional section are signed, one failure is logged.\<close>

theorem sign_failure_is_local_witness:
  "sigCache_key [test_a ''bad.example.com.'']
     = Some (bytes_of ''bad.example.com.'' @ [0, 1, 192, 0, 2, 1] @ sha1_of_nothing)
   \<and> Sign (testlib [''bad.example.com.'']) (PrivKey (config test_server))
        (sig1_stamped test_server (test_a ''bad.example.com.'') 1699989200 1700604800)
        [test_a ''bad.example.com.'']
      = (sig1_stamped test_server (test_a ''bad.example.com.'') 1699989200 1700604800,
         Some ''dns: bad signature'')
   \<and> fst (signSet (testlib [''bad.example.com.'']) test_server [test_a ''bad.example.com.'']
          test_now 1699989200 1700604800 test_world) = Return (Inl ''dns: bad signature'')
   \<and> cache (snd (signSet (testlib [''bad.example.com.'']) test_server [test_a ''bad.example.com.'']
          test_now 1699989200 1700604800 test_world)) = Map.empty
   \<and> inflight test_world = Map.empty
   \<and> fst (sign (testlib [''bad.example.com.'']) test_server
          ((test_reply [test_a ''bad.example.com.''] [test_soa])\<lparr>Extra := [test_a ''ns.example.com.'']\<rparr>)
          4096 test_now test_world)
     = Return ((test_reply [test_a ''bad.example.com.'']
        [test_soa,
         RRSIG_RR \<lparr>Hdr = \<lparr>Name = ''example.com.'', Rrtype = TypeRRSIG, Class = 1, RR_Header.Ttl = 60\<rparr>,
            TypeCovered = 6, RRSIG.Algorithm = 5, Labels = 2, OrigTtl = 3600,
            Expiration = 1700604800, Inception = 1699989200, RRSIG.KeyTag = 51945,
            SignerName = ''example.com.'', Signature = ''c2lnbmVk''\<rparr>])
       \<lparr>Extra := [test_a ''ns.example.com.'',
          RRSIG_RR \<lparr>Hdr = \<lparr>Name = ''ns.example.com.'', Rrtype = TypeRRSIG, Class = 1, RR_Header.Ttl = 300\<rparr>,
            TypeCovered = 1, RRSIG.Algorithm = 5, Labels = 3, OrigTtl = 3600,
            Expiration = 1700604800, Inception = 1699989200, RRSIG.KeyTag = 51945,
            SignerName = ''example.com.'', Signature = ''c2lnbmVk''\<rparr>,
          OPT_RR \<lparr>Hdr = \<lparr>Name = ''.'', Rrtype = TypeOPT, Class = 4096, RR_Header.Ttl = 0x8000\<rparr>\<rparr>]\<rparr>)
   \<and> failed_to_sign (log (snd (sign (testlib [''bad.example.com.'']) test_server
          ((test_reply [test_a ''bad.example.com.''] [test_soa])\<lparr>Extra := [test_a ''ns.example.com.'']\<rparr>)
          4096 test_now test_world))) = 1"
proof -
  let ?L = "testlib [''bad.example.com.'']"
  let ?r0 = "test_a ''bad.example.com.''"
  let ?k = "bytes_of ''bad.example.com.'' @ [0, 1, 192, 0, 2, 1] @ sha1_of_nothing"
  let ?m = "(test_reply [test_a ''bad.example.com.''] [test_soa])\<lparr>Extra := [test_a ''ns.example.com.'']\<rparr>"
  have k: "sigCache_key (?r0 # []) = Some ?k"
    by (simp add: test_a_def packUint16_def)
  have ty: "Rrtype (Header ?r0) \<noteq> TypeRRSIG"
    by (simp add: test_a_def)
  have idle: "inflight test_world ?k = None" and empty: "inflight test_world = Map.empty"
    by (simp_all add: test_world_def)
  have nohit: "\<nexists>sg. cache test_world ?k = Some sg \<and> ValidityPeriod ?L sg (test_now + 24 * Hour)"
    by (simp add: test_world_def)
  have sgn: "Sign ?L (PrivKey (config test_server)) (sig1_stamped test_server ?r0 1699989200 1700604800)
       (?r0 # []) = (sig1_stamped test_server ?r0 1699989200 1700604800, Some ''dns: bad signature'')"
    by (simp add: testlib_def test_Sign_def test_a_def)
  have sub: "\<forall>xs. set (rangeOrder ?L xs) \<subseteq> set xs"
    by (simp add: testlib_rangeOrder)
  note inst = sign_failure_is_local [where ?r0.0 = ?r0 and rs = "[]" and k = ?k and w = test_world
      and L = ?L and now = test_now and s = test_server and incep = 1699989200
      and expir = 1700604800 and sg' = "sig1_stamped test_server ?r0 1699989200 1700604800"
      and msg = "''dns: bad signature''" and ?w0.0 = test_world and m = ?m and bufsize = 4096
      and ?now0.0 = test_now and groups = "[]" and sec = "[?r0]"]
  from inst k ty idle nohit sgn
  obtain w' where s1: "signSet ?L test_server [?r0] test_now 1699989200 1700604800 test_world
        = (Return (Inl ''dns: bad signature''), w')"
    and c1: "cache w' = (cache test_world)(?k := None)" by blast
  from inst sub empty
  obtain m' wx where r: "sign ?L test_server ?m 4096 test_now test_world = (Return m', wx)"
    by blast
  have c2: "cache w' = Map.empty"
    unfolding c1 by (simp add: test_world_def)
  have n: "failed_to_sign (log (snd (sign ?L test_server ?m 4096 test_now test_world))) = 1"
    unfolding sign_eval_bad_extra_log by (simp add: failed_to_sign_def)
  show ?thesis
    using k sgn s1 c2 empty r n sign_eval_bad_extra by simp
qed



lemma test_srv_Port: "(test_srv q)\<lparr>Port := p\<rparr> = test_srv p"
  by (simp add: test_srv_def)

text \<open>The property on two SRV sets with ports 8080 and 9090: the first is
  signed, and the request for the second is served the signature of the first.\<close>

theorem SRV_port_not_in_key_witness:
  "(8080 :: u16) \<noteq> 9090
   \<and> [SRV_RR (test_srv 8080)] \<noteq> [SRV_RR (test_srv 9090)]
   \<and> sigCache_key [SRV_RR (test_srv 8080)] = sigCache_key [SRV_RR (test_srv 9090)]
   \<and> sigCache_key [SRV_RR (test_srv 8080)]
       = Some (bytes_of ''_http._tcp.example.com.'' @ [0, 33, 0, 10, 0, 100, 0, 100]
               @ bytes_of ''www.example.com.'' @ sha1_of_nothing)
   \<and> fst (signSet (testlib []) test_server [SRV_RR (test_srv 8080)] test_now
            1699989200 1700604800 test_world)
       = Return (Inr \<lparr>Hdr = \<lparr>Name = ''_http._tcp.example.com.'', Rrtype = TypeRRSIG, Class = 1,
                          RR_Header.Ttl = 300\<rparr>,
            TypeCovered = 33, RRSIG.Algorithm = 5, Labels = 4, OrigTtl = 3600,
            Expiration = 1700604800, Inception = 1699989200, RRSIG.KeyTag = 51945,
            SignerName = ''example.com.'', Signature = ''c2lnbmVk''\<rparr>)
   \<and> signSet (testlib []) test_server [SRV_RR (test_srv 9090)] test_day1 1700075600 1700691200
         (snd (signSet (testlib []) test_server [SRV_RR (test_srv 8080)] test_now
                 1699989200 1700604800 test_world))
       = (Return (Inr \<lparr>Hdr = \<lparr>Name = ''_http._tcp.example.com.'', Rrtype = TypeRRSIG, Class = 1,
                          RR_Header.Ttl = 300\<rparr>,
            TypeCovered = 33, RRSIG.Algorithm = 5, Labels = 4, OrigTtl = 3600,
            Expiration = 1700604800, Inception = 1699989200, RRSIG.KeyTag = 51945,
            SignerName = ''example.com.'', Signature = ''c2lnbmVk''\<rparr>),
          snd (signSet (testlib []) test_server [SRV_RR (test_srv 8080)] test_now
                 1699989200 1700604800 test_world))"
proof -
  let ?k = "bytes_of ''_http._tcp.example.com.'' @ [0, 33, 0, 10, 0, 100, 0, 100]
               @ bytes_of ''www.example.com.'' @ sha1_of_nothing"
  let ?sg = "\<lparr>Hdr = \<lparr>Name = ''_http._tcp.example.com.'', Rrtype = TypeRRSIG, Class = 1,
                          RR_Header.Ttl = 300\<rparr>,
            TypeCovered = 33, RRSIG.Algorithm = 5, Labels = 4, OrigTtl = 3600,
            Expiration = 1700604800, Inception = 1699989200, RRSIG.KeyTag = 51945,
            SignerName = ''example.com.'', Signature = ''c2lnbmVk''\<rparr>"
  let ?w1 = "snd (signSet (testlib []) test_server [SRV_RR (test_srv 8080)] test_now
                 1699989200 1700604800 test_world)"
  have k: "sigCache_key (SRV_RR (test_srv 8080) # []) = Some ?k"
    by (simp add: test_srv_def packUint16_def)
  have c: "cache test_world ?k = None" and i: "inflight test_world ?k = None"
    by (simp_all add: test_world_def)
  have sgn: "Sign (testlib []) (PrivKey (config test_server))
        (sig1_stamped test_server (SRV_RR (test_srv 8080)) 1699989200 1700604800)
        (SRV_RR (test_srv 8080) # []) = (?sg, None)"
    by (simp add: testlib_def test_Sign_def sig1_stamped_def test_server_def test_srv_def)
  note first = signSet_fresh_ok [OF k c i sgn, of test_now]
  have c1: "cache ?w1 ?k = Some ?sg"
    unfolding first by simp
  have v: "ValidityPeriod (testlib []) ?sg (test_day1 + 24 * Hour)"
    by (simp add: testlib_def test_ValidityPeriod_def Unix_def test_now_def test_day1_def)
  note inst = SRV_port_not_in_key [where p = 8080 and p' = 9090 and t = "test_srv 8080"
      and rs = "[]" and k = ?k and w = ?w1 and sg = ?sg and L = "testlib []" and now = test_day1
      and s = test_server and incep = 1700075600 and expir = 1700691200]
  from inst have d: "[SRV_RR (test_srv 8080)] \<noteq> [SRV_RR (test_srv 9090)]"
    and e: "sigCache_key [SRV_RR (test_srv 8080)] = sigCache_key [SRV_RR (test_srv 9090)]"
    by (simp_all add: test_srv_Port)
  from inst k c1 v
  have f: "signSet (testlib []) test_server [SRV_RR (test_srv 9090)] test_day1 1700075600 1700691200 ?w1
      = (Return (Inr ?sg), ?w1)"
    by (simp add: test_srv_Port del: sigCache_key.simps)
  have g: "fst (signSet (testlib []) test_server [SRV_RR (test_srv 8080)] test_now
            1699989200 1700604800 test_world) = Return (Inr ?sg)"
    unfolding first by simp
  show ?thesis
    using d e f g k by simp
qed

end
